theory Spec2Isabelle
  imports Complex_Main
begin

section \<open>Arrays\<close>

text \<open>
  A time-major array of shape (T, batch, features) is a list of T matrices, each a list
  of rows, each a list of reals.  Elements are real numbers: rounding of the machine
  floats is outside this development.  Every Python exception the code can raise is a
  value of \<open>error\<close>; a function that can raise returns \<open>error + 'a\<close>.
\<close>

type_synonym vec = "real list"
type_synonym mat = "real list list"
type_synonym tensor = "real list list list"

datatype error =
  AssertionError | ValueError | IndexError | TypeError | RuntimeError | AttributeError

text \<open>The shape predicate used by the theorems: T matrices of B rows of D entries.\<close>

definition has_rows :: "nat \<Rightarrow> nat \<Rightarrow> mat \<Rightarrow> bool" where
  "has_rows B D M = (length M = B \<and> list_all (\<lambda>r. length r = D) M)"

definition has_shape :: "nat \<Rightarrow> nat \<Rightarrow> nat \<Rightarrow> tensor \<Rightarrow> bool" where
  "has_shape T B D X = (length X = T \<and> list_all (has_rows B D) X)"

text \<open>\<open>M.size()\<close> and \<open>X.size()\<close>, read off the nested list.\<close>

definition size_m :: "mat \<Rightarrow> nat \<times> nat" where
  "size_m M = (length M, (case M of [] \<Rightarrow> 0 | r # _ \<Rightarrow> length r))"

definition size_t :: "tensor \<Rightarrow> nat \<times> nat \<times> nat" where
  "size_t X = (length X, (case X of [] \<Rightarrow> (0, 0) | M # _ \<Rightarrow> size_m M))"

text \<open>Elementwise operations: \<open>tanh\<close>, \<open>sigmoid\<close>, scaling, and the product \<open>*\<close> of two
  arrays of one shape.\<close>

definition sigmoid :: "real \<Rightarrow> real" where
  "sigmoid x = 1 / (1 + exp (- x))"

definition map_t :: "(real \<Rightarrow> real) \<Rightarrow> tensor \<Rightarrow> tensor" where
  "map_t f X = map (map (map f)) X"

definition mul_t :: "tensor \<Rightarrow> tensor \<Rightarrow> tensor" where
  "mul_t X Y = map2 (map2 (map2 (*))) X Y"

text \<open>\<open>X[-1:, :, :]\<close>: the last time step, kept as an array of one step (empty when X is).\<close>

definition last_step :: "tensor \<Rightarrow> tensor" where
  "last_step X = drop (length X - 1) X"

text \<open>\<open>torch.cat([A, B], 2)\<close> and \<open>torch.cat([A, B], dim=-1)\<close> on arrays of three axes:
  rows are joined; the time and batch extents must agree.\<close>

definition cat_last :: "tensor \<Rightarrow> tensor \<Rightarrow> error + tensor" where
  "cat_last A B =
     (if length A = length B \<and> list_all (\<lambda>(a, b). length a = length b) (zip A B)
      then Inr (map2 (map2 (@)) A B)
      else Inl RuntimeError)"

text \<open>\<open>Y.view(T, B, W)\<close> regroups the contiguous elements of Y; it raises when the
  number of elements is not T * B * W.\<close>

fun chunks :: "nat \<Rightarrow> nat \<Rightarrow> 'a list \<Rightarrow> 'a list list" where
  "chunks n 0 xs = []"
| "chunks n (Suc k) xs = take n xs # chunks n k (drop n xs)"

definition view3 :: "nat \<Rightarrow> nat \<Rightarrow> nat \<Rightarrow> real list \<Rightarrow> error + tensor" where
  "view3 T B W flat =
     (if length flat = T * B * W then Inr (chunks B T (chunks W (T * B) flat))
      else Inl RuntimeError)"

text \<open>\<open>Y.chunk(n, dim=2)\<close>: piece i of every row, the pieces \<open>ceil(W / n)\<close> wide.\<close>

definition chunk_piece :: "nat \<Rightarrow> nat \<Rightarrow> vec \<Rightarrow> vec" where
  "chunk_piece n i r = (let s = (length r + n - 1) div n in take s (drop (i * s) r))"

definition chunk_t :: "nat \<Rightarrow> nat \<Rightarrow> tensor \<Rightarrow> tensor" where
  "chunk_t n i Y = map (map (chunk_piece n i)) Y"

section \<open>The affine projection\<close>

text \<open>\<open>nn.Linear(in_features, out_features)\<close>: weight of shape (out, in) and a bias.
  The freshly drawn parameter values are an argument of the constructor.\<close>

record Linear =
  in_features :: nat
  out_features :: nat
  weight :: mat
  bias :: vec

definition Linear_init :: "nat \<Rightarrow> nat \<Rightarrow> (nat \<Rightarrow> nat \<Rightarrow> real) \<times> (nat \<Rightarrow> real) \<Rightarrow> Linear" where
  "Linear_init n_in n_out draws =
     \<lparr> in_features = n_in, out_features = n_out,
       weight = map (\<lambda>j. map (\<lambda>k. fst draws j k) [0..<n_in]) [0..<n_out],
       bias = map (snd draws) [0..<n_out] \<rparr>"

definition affine :: "Linear \<Rightarrow> vec \<Rightarrow> vec" where
  "affine lin v = map (\<lambda>(w, b). sum_list (map2 (*) v w) + b) (zip (weight lin) (bias lin))"

text \<open>After the shape extraction of \<open>forward\<close> the input is an array of three axes, or,
  on the fallback path, the two-axis data of a packed sequence.\<close>

datatype dense = D3 tensor | D2 mat

fun Linear_forward :: "Linear \<Rightarrow> dense \<Rightarrow> error + dense" where
  "Linear_forward lin (D3 X) =
     (if list_all (list_all (\<lambda>r. length r = in_features lin)) X
      then Inr (D3 (map (map (affine lin)) X)) else Inl RuntimeError)"
| "Linear_forward lin (D2 M) =
     (if list_all (\<lambda>r. length r = in_features lin) M
      then Inr (D2 (map (affine lin) M)) else Inl RuntimeError)"

fun flat :: "dense \<Rightarrow> real list" where
  "flat (D3 X) = concat (concat X)"
| "flat (D2 M) = concat M"

section \<open>The recurrence scan\<close>

text \<open>
  Modelled from the spec: \<open>ForgetMult\<close> (module \<open>forget_mult\<close>), which \<open>forward\<close>
  calls and whose source is not part of the files at hand.  The spec's contract: given
  F, Z and an optional initial state (zero when none is supplied), the scan computes
  \<open>C[t] = F[t] * Z[t] + (1 - F[t]) * C[t-1]\<close> elementwise, left to right along t, by
  either execution strategy.
\<close>

definition forget_row :: "vec \<Rightarrow> vec \<Rightarrow> vec \<Rightarrow> vec" where
  "forget_row f z c = map (\<lambda>(f, z, c). f * z + (1 - f) * c) (zip f (zip z c))"

text \<open>Modelled from the spec: one time step of the scan (absent with \<open>forget_mult\<close>),
  independently per batch row and per hidden unit.\<close>

definition forget_step :: "mat \<Rightarrow> mat \<Rightarrow> mat \<Rightarrow> mat" where
  "forget_step Ft Zt Cp = map (\<lambda>(f, z, c). forget_row f z c) (zip Ft (zip Zt Cp))"

text \<open>Modelled from the spec: the sequential loop of the scan (absent with
  \<open>forget_mult\<close>), each step taking the state of the step before.\<close>

fun forget_scan :: "mat \<Rightarrow> tensor \<Rightarrow> tensor \<Rightarrow> tensor" where
  "forget_scan c (f # fs) (z # zs) = (let c' = forget_step f z c in c' # forget_scan c' fs zs)"
| "forget_scan c _ _ = []"

text \<open>Modelled from the spec: the call \<open>ForgetMult()(F, Z, hidden, use_cuda=...)\<close> (absent
  with \<open>forget_mult\<close>).  The initial state is the supplied one, or zeros; the flag selects
  the execution strategy, and both strategies compute the same recurrence.\<close>

definition ForgetMult :: "tensor \<Rightarrow> tensor \<Rightarrow> mat option \<Rightarrow> bool \<Rightarrow> tensor" where
  "ForgetMult F Z hidden_init cuda =
     forget_scan
       (case hidden_init of
          Some h \<Rightarrow> h
        | None \<Rightarrow> (case F of [] \<Rightarrow> [] | f0 # _ \<Rightarrow> map (map (\<lambda>_. 0)) f0))
       F Z"

section \<open>QRNNLayer\<close>

record Module =
  training :: bool

record Sized = Module +
  input_size :: nat
  hidden_size :: nat

record Config = Sized +
  window :: nat
  zoneout :: real
  save_prev_x :: bool
  prevX :: "tensor option"
  output_gate :: bool
  use_cuda :: bool

record QRNNLayer = Config +
  linear :: Linear

text \<open>\<open>__init__\<close>: \<open>hidden_size\<close> is optional (\<open>None\<close> by default); a module starts in
  training mode.\<close>

definition QRNNLayer_init ::
  "nat \<Rightarrow> nat option \<Rightarrow> bool \<Rightarrow> real \<Rightarrow> nat \<Rightarrow> bool \<Rightarrow> bool \<Rightarrow>
   (nat \<Rightarrow> nat \<Rightarrow> real) \<times> (nat \<Rightarrow> real) \<Rightarrow> error + QRNNLayer" where
  "QRNNLayer_init n_in hidden_arg spx zo win og cuda draws =
     (if win \<noteq> 1 \<and> win \<noteq> 2 then Inl AssertionError
      else
        let hs = (case hidden_arg of None \<Rightarrow> n_in | Some h \<Rightarrow> if h \<noteq> 0 then h else n_in)
        in Inr \<lparr> training = True, input_size = n_in, hidden_size = hs,
                 window = win, zoneout = zo, save_prev_x = spx, prevX = None,
                 output_gate = og, use_cuda = cuda,
                 linear = Linear_init (win * n_in) (if og then 3 * hs else 2 * hs) draws \<rparr>)"

definition reset :: "QRNNLayer \<Rightarrow> QRNNLayer" where
  "reset layer = layer\<lparr>prevX := None\<rparr>"

text \<open>What a caller can pass as X: an array of three axes, an array of two axes, or a
  packed sequence (data of two axes, batch sizes, sorted and unsorted indices).\<close>

datatype qinput =
  Tensor3 tensor
| Tensor2 mat
| Packed mat "nat list" "nat list option" "nat list option"

text \<open>Lines 55-63: \<open>X.size()\<close> is unpacked into three names; when that raises, the input
  is unpacked into four components and the size of the first into two names.  A two-axis
  array unpacks into its rows: with four rows the first is a vector, whose size does not
  unpack into two names.\<close>

fun extract_shape :: "qinput \<Rightarrow> error + dense \<times> nat \<times> nat" where
  "extract_shape (Tensor3 X) = (case size_t X of (T, B, _) \<Rightarrow> Inr (D3 X, T, B))"
| "extract_shape (Tensor2 M) =
     (if length M = 4 then (if M ! 1 = [] then Inl IndexError else Inl ValueError)
      else Inl ValueError)"
| "extract_shape (Packed data batch_sizes si ui) =
     (if batch_sizes = [] then Inl IndexError
      else (case size_m data of (n, w) \<Rightarrow> Inr (D2 data, n, w)))"

text \<open>Lines 69-81: the windowed source.  \<open>shifted_parts\<close> is the Python list \<open>Xm1\<close>
  before it is concatenated along time.\<close>

definition shifted_parts :: "tensor option \<Rightarrow> tensor \<Rightarrow> tensor list" where
  "shifted_parts prev X =
     [case prev of Some p \<Rightarrow> p | None \<Rightarrow> map_t (\<lambda>x. x * 0) (take 1 X)]
     @ (if length X > 1 then [butlast X] else [])"

definition cat_time :: "tensor list \<Rightarrow> error + tensor" where
  "cat_time parts =
     (if parts = [] then Inl RuntimeError
      else if list_all (\<lambda>P. snd (size_t P) = snd (size_t (hd parts))) parts
      then Inr (concat parts) else Inl RuntimeError)"

fun build_source :: "nat \<Rightarrow> tensor option \<Rightarrow> dense \<Rightarrow> error + dense" where
  "build_source win prev (D3 X) =
     (if win = 1 then Inr (D3 X)
      else if win = 2 then
        (case cat_time (shifted_parts prev X) of
           Inl e \<Rightarrow> Inl e
         | Inr Xm1 \<Rightarrow> (case cat_last X Xm1 of Inl e \<Rightarrow> Inl e | Inr S \<Rightarrow> Inr (D3 S)))
      else Inl TypeError)"
| "build_source win prev (D2 M) =
     (if win = 1 then Inr (D2 M)
      else if win = 2 then Inl IndexError
      else Inl TypeError)"

text \<open>Lines 84-94: projection, view, split into gates, activations.\<close>

definition split_gates ::
  "bool \<Rightarrow> nat \<Rightarrow> nat \<Rightarrow> nat \<Rightarrow> dense \<Rightarrow> error + tensor \<times> tensor \<times> tensor option" where
  "split_gates og hs seq_len batch_size Y =
     (if og then
        (case view3 seq_len batch_size (3 * hs) (flat Y) of
           Inl e \<Rightarrow> Inl e
         | Inr V \<Rightarrow> Inr (chunk_t 3 0 V, chunk_t 3 1 V, Some (chunk_t 3 2 V)))
      else
        (case view3 seq_len batch_size (2 * hs) (flat Y) of
           Inl e \<Rightarrow> Inl e
         | Inr V \<Rightarrow> Inr (chunk_t 2 0 V, chunk_t 2 1 V, None)))"

text \<open>Lines 96-103: zoneout.  The random generator is a state \<open>g\<close> with a sampler
  \<open>bern g p\<close> that returns the draws of a Bernoulli(p) array, by index, and the next
  state; \<open>bernoulli_like\<close> fills a new array of the size of F with them.
  \<open>bernoulli_(p)\<close> refuses a probability outside [0, 1] with a \<open>RuntimeError\<close>; the
  in-place scaling of inference mode cannot fail.\<close>

type_synonym 'g sampler = "'g \<Rightarrow> real \<Rightarrow> (nat \<Rightarrow> nat \<Rightarrow> nat \<Rightarrow> real) \<times> 'g"

definition bernoulli_like :: "(nat \<Rightarrow> nat \<Rightarrow> nat \<Rightarrow> real) \<Rightarrow> tensor \<Rightarrow> tensor" where
  "bernoulli_like d F =
     map (\<lambda>t. map (\<lambda>b. map (\<lambda>j. d t b j) [0..<length (F ! t ! b)]) [0..<length (F ! t)])
       [0..<length F]"

definition zoneout_stage ::
  "'g sampler \<Rightarrow> real \<Rightarrow> bool \<Rightarrow> tensor \<Rightarrow> 'g \<Rightarrow> error + tensor \<times> 'g" where
  "zoneout_stage bern zo train F g =
     (if zo \<noteq> 0 then
        (if train then
           (if 1 - zo < 0 \<or> 1 < 1 - zo then Inl RuntimeError
            else (case bern g (1 - zo) of (d, g') \<Rightarrow> Inr (mul_t F (bernoulli_like d F), g')))
         else Inr (map_t (\<lambda>x. x * (1 - zo)) F, g))
      else Inr (F, g))"

text \<open>Lines 55-108 of \<open>forward\<close>: everything before the scan.\<close>

definition forward_gates ::
  "'g sampler \<Rightarrow> QRNNLayer \<Rightarrow> qinput \<Rightarrow> 'g \<Rightarrow>
   error + dense \<times> tensor \<times> tensor \<times> tensor option \<times> 'g" where
  "forward_gates bern layer inp g =
     (case extract_shape inp of
        Inl e \<Rightarrow> Inl e
      | Inr (X, seq_len, batch_size) \<Rightarrow>
     (case build_source (window layer) (prevX layer) X of
        Inl e \<Rightarrow> Inl e
      | Inr source \<Rightarrow>
     (case Linear_forward (linear layer) source of
        Inl e \<Rightarrow> Inl e
      | Inr Y \<Rightarrow>
     (case split_gates (output_gate layer) (hidden_size layer) seq_len batch_size Y of
        Inl e \<Rightarrow> Inl e
      | Inr (Z, F, Og) \<Rightarrow>
          (case zoneout_stage bern (zoneout layer) (training layer) (map_t sigmoid F) g of
             Inl e \<Rightarrow> Inl e
           | Inr (F', g') \<Rightarrow> Inr (X, map_t tanh Z, F', Og, g'))))))"

text \<open>Lines 111-125: scan, output gate, cache of the last input, result.\<close>

definition output_stage :: "tensor option \<Rightarrow> tensor \<Rightarrow> error + tensor" where
  "output_stage Og C =
     (case Og of Some G \<Rightarrow> Inr (mul_t (map_t sigmoid G) C) | None \<Rightarrow> Inl TypeError)"

definition store_prev :: "QRNNLayer \<Rightarrow> dense \<Rightarrow> error + QRNNLayer" where
  "store_prev layer X =
     (if window layer > 1 \<and> save_prev_x layer then
        (case X of D3 Xs \<Rightarrow> Inr (layer\<lparr>prevX := Some (last_step Xs)\<rparr>) | D2 _ \<Rightarrow> Inl IndexError)
      else Inr layer)"

definition QRNNLayer_forward ::
  "'g sampler \<Rightarrow> QRNNLayer \<Rightarrow> qinput \<Rightarrow> mat option \<Rightarrow> 'g \<Rightarrow>
   error + tensor \<times> tensor \<times> QRNNLayer \<times> 'g" where
  "QRNNLayer_forward bern layer inp hidden g =
     (case forward_gates bern layer inp g of
        Inl e \<Rightarrow> Inl e
      | Inr (X, Z, F, Og, g') \<Rightarrow>
          let C = ForgetMult F Z hidden (use_cuda layer) in
          (case (if output_gate layer then output_stage Og C else Inr C) of
             Inl e \<Rightarrow> Inl e
           | Inr H \<Rightarrow>
          (case store_prev layer X of
             Inl e \<Rightarrow> Inl e
           | Inr layer' \<Rightarrow> Inr (H, last_step C, layer', g'))))"

section \<open>BiDirQRNNLayer\<close>

text \<open>The class defines \<open>__init__\<close> and \<open>forward\<close> only.\<close>

record BiDirQRNNLayer = Config +
  forward_qrnn :: QRNNLayer
  backward_qrnn :: QRNNLayer

definition BiDirQRNNLayer_init ::
  "nat \<Rightarrow> nat option \<Rightarrow> bool \<Rightarrow> real \<Rightarrow> nat \<Rightarrow> bool \<Rightarrow> bool \<Rightarrow>
   (nat \<Rightarrow> nat \<Rightarrow> real) \<times> (nat \<Rightarrow> real) \<Rightarrow> (nat \<Rightarrow> nat \<Rightarrow> real) \<times> (nat \<Rightarrow> real) \<Rightarrow>
   error + BiDirQRNNLayer" where
  "BiDirQRNNLayer_init n_in hidden_arg spx zo win og cuda draws_f draws_b =
     (if win \<noteq> 1 \<and> win \<noteq> 2 then Inl AssertionError
      else
        let hs = (case hidden_arg of None \<Rightarrow> n_in | Some h \<Rightarrow> if h \<noteq> 0 then h else n_in)
        in
        (case QRNNLayer_init n_in hidden_arg spx zo win og cuda draws_f of
           Inl e \<Rightarrow> Inl e
         | Inr fl \<Rightarrow>
        (case QRNNLayer_init n_in hidden_arg spx zo win og cuda draws_b of
           Inl e \<Rightarrow> Inl e
         | Inr bl \<Rightarrow>
             Inr \<lparr> training = True, input_size = n_in, hidden_size = hs,
                   window = win, zoneout = zo, save_prev_x = spx, prevX = None,
                   output_gate = og, use_cuda = cuda,
                   forward_qrnn = fl, backward_qrnn = bl \<rparr>)))"

text \<open>\<open>torch.flip(X, [0])\<close> reverses an array along time; a packed sequence is not an
  array.\<close>

fun flip0 :: "qinput \<Rightarrow> error + qinput" where
  "flip0 (Tensor3 X) = Inr (Tensor3 (rev X))"
| "flip0 (Tensor2 M) = Inr (Tensor2 (rev M))"
| "flip0 (Packed d bs si ui) = Inl TypeError"

definition BiDirQRNNLayer_forward ::
  "'g sampler \<Rightarrow> BiDirQRNNLayer \<Rightarrow> qinput \<Rightarrow> mat option \<Rightarrow> 'g \<Rightarrow>
   error + tensor \<times> tensor \<times> BiDirQRNNLayer \<times> 'g" where
  "BiDirQRNNLayer_forward bern layer X hidden g =
     (case QRNNLayer_forward bern (forward_qrnn layer) X
             (if hidden \<noteq> None then hidden else None) g of
        Inl e \<Rightarrow> Inl e
      | Inr (fwd, h_fwd, fl, g1) \<Rightarrow>
     (case flip0 X of
        Inl e \<Rightarrow> Inl e
      | Inr Xr \<Rightarrow>
     (case QRNNLayer_forward bern (backward_qrnn layer) Xr
             (if hidden \<noteq> None then hidden else None) g1 of
        Inl e \<Rightarrow> Inl e
      | Inr (bwd, h_bwd, bl, g2) \<Rightarrow>
     (case cat_last fwd (rev bwd) of
        Inl e \<Rightarrow> Inl e
      | Inr out \<Rightarrow>
     (case cat_last h_fwd h_bwd of
        Inl e \<Rightarrow> Inl e
      | Inr h \<Rightarrow>
          Inr (out, h, layer\<lparr>forward_qrnn := fl, backward_qrnn := bl\<rparr>, g2))))))"

section \<open>QRNN\<close>

datatype layer_unit = Uni QRNNLayer | Bi BiDirQRNNLayer

record QRNN = Sized +
  layers :: "layer_unit list"
  num_layers :: nat
  bias_flag :: bool
  batch_first :: bool
  dropout :: real
  bidirectional :: bool

fun collect :: "(error + 'a) list \<Rightarrow> error + 'a list" where
  "collect [] = Inr []"
| "collect (x # xs) =
     (case x of
        Inl e \<Rightarrow> Inl e
      | Inr v \<Rightarrow> (case collect xs of Inl e \<Rightarrow> Inl e | Inr vs \<Rightarrow> Inr (v # vs)))"

text \<open>\<open>__init__\<close>.  The keyword arguments handed on to the layers are \<open>save_prev_x\<close>,
  \<open>zoneout\<close>, \<open>window\<close>, \<open>output_gate\<close> and \<open>use_cuda\<close>; \<open>pinit k\<close> is the k-th draw of
  projection parameters.\<close>

definition QRNN_init ::
  "nat \<Rightarrow> nat \<Rightarrow> nat \<Rightarrow> bool \<Rightarrow> bool \<Rightarrow> real \<Rightarrow> bool \<Rightarrow> layer_unit list option \<Rightarrow>
   bool \<Rightarrow> real \<Rightarrow> nat \<Rightarrow> bool \<Rightarrow> bool \<Rightarrow>
   (nat \<Rightarrow> (nat \<Rightarrow> nat \<Rightarrow> real) \<times> (nat \<Rightarrow> real)) \<Rightarrow> error + QRNN" where
  "QRNN_init n_in hs n with_bias bf p bidir layers_arg spx zo win og cuda pinit =
     (if bf then Inl AssertionError
      else if \<not> with_bias then Inl AssertionError
      else
        let given = (case layers_arg of None \<Rightarrow> [] | Some ls \<Rightarrow> ls) in
        (case (if given \<noteq> [] then Inr given
               else if bidir then
                 collect (map (\<lambda>l. map_sum id Bi
                   (BiDirQRNNLayer_init (if l = 0 then n_in else hs * 2) (Some hs)
                      spx zo win og cuda (pinit (2 * l)) (pinit (2 * l + 1)))) [0..<n])
               else
                 collect (map (\<lambda>l. map_sum id Uni
                   (QRNNLayer_init (if l = 0 then n_in else hs) (Some hs)
                      spx zo win og cuda (pinit l))) [0..<n])) of
           Inl e \<Rightarrow> Inl e
         | Inr ls \<Rightarrow>
             Inr \<lparr> training = True, input_size = n_in, hidden_size = hs,
                   layers = ls, num_layers = (if given \<noteq> [] then length given else n),
                   bias_flag = with_bias, batch_first = bf, dropout = p,
                   bidirectional = bidir \<rparr>))"

text \<open>\<open>reset\<close>: the list comprehension calls \<open>layer.reset()\<close> on each unit in order.
  \<open>QRNNLayer\<close> has the method; \<open>BiDirQRNNLayer\<close> has no attribute of that name, and the
  lookup raises.\<close>

fun unit_reset :: "layer_unit \<Rightarrow> error + layer_unit" where
  "unit_reset (Uni l) = Inr (Uni (reset l))"
| "unit_reset (Bi b) = Inl AttributeError"

definition QRNN_reset :: "QRNN \<Rightarrow> error + QRNN" where
  "QRNN_reset q =
     (case collect (map unit_reset (layers q)) of
        Inl e \<Rightarrow> Inl e
      | Inr ls \<Rightarrow> Inr (q\<lparr>layers := ls\<rparr>))"

fun unit_forward ::
  "'g sampler \<Rightarrow> layer_unit \<Rightarrow> qinput \<Rightarrow> mat option \<Rightarrow> 'g \<Rightarrow>
   error + tensor \<times> tensor \<times> layer_unit \<times> 'g" where
  "unit_forward bern (Uni l) X hidden g =
     (case QRNNLayer_forward bern l X hidden g of
        Inl e \<Rightarrow> Inl e
      | Inr (H, hn, l', g') \<Rightarrow> Inr (H, hn, Uni l', g'))"
| "unit_forward bern (Bi b) X hidden g =
     (case BiDirQRNNLayer_forward bern b X hidden g of
        Inl e \<Rightarrow> Inl e
      | Inr (H, hn, b', g') \<Rightarrow> Inr (H, hn, Bi b', g'))"

text \<open>\<open>torch.nn.functional.dropout(input, p, training)\<close>: outside [0, 1] the
  probability is refused; in training mode every element is zeroed with probability p
  and the survivors are scaled by 1 / (1 - p); otherwise the input is returned.\<close>

definition dropout_fn ::
  "'g sampler \<Rightarrow> tensor \<Rightarrow> real \<Rightarrow> bool \<Rightarrow> 'g \<Rightarrow> error + tensor \<times> 'g" where
  "dropout_fn bern X p train g =
     (if p < 0 \<or> 1 < p then Inl ValueError
      else if \<not> train \<or> p = 0 then Inr (X, g)
      else if p = 1 then Inr (map_t (\<lambda>x. x * 0) X, g)
      else (case bern g (1 - p) of
              (d, g') \<Rightarrow> Inr (map_t (\<lambda>x. x / (1 - p)) (mul_t X (bernoulli_like d X)), g')))"

text \<open>\<open>hidden[i]\<close> of an optional stacked hidden array.\<close>

definition hidden_at :: "tensor option \<Rightarrow> nat \<Rightarrow> error + mat option" where
  "hidden_at hidden i =
     (case hidden of
        None \<Rightarrow> Inr None
      | Some h \<Rightarrow> if i < length h then Inr (Some (h ! i)) else Inl IndexError)"

text \<open>The loop of \<open>forward\<close> over \<open>enumerate(self.layers)\<close>: \<open>n\<close> is \<open>len(self.layers)\<close>,
  \<open>i\<close> the index of the first remaining unit.\<close>

fun QRNN_loop ::
  "'g sampler \<Rightarrow> real \<Rightarrow> bool \<Rightarrow> nat \<Rightarrow> tensor option \<Rightarrow> nat \<Rightarrow> layer_unit list \<Rightarrow>
   qinput \<Rightarrow> tensor list \<Rightarrow> 'g \<Rightarrow> error + qinput \<times> tensor list \<times> layer_unit list \<times> 'g" where
  "QRNN_loop bern p train n hidden i [] inp next_hidden g = Inr (inp, next_hidden, [], g)"
| "QRNN_loop bern p train n hidden i (u # us) inp next_hidden g =
     (case hidden_at hidden i of
        Inl e \<Rightarrow> Inl e
      | Inr hi \<Rightarrow>
     (case unit_forward bern u inp hi g of
        Inl e \<Rightarrow> Inl e
      | Inr (out, hn, u', g1) \<Rightarrow>
     (case (if p \<noteq> 0 \<and> int i < int n - 1 then dropout_fn bern out p train g1
            else Inr (out, g1)) of
        Inl e \<Rightarrow> Inl e
      | Inr (out', g2) \<Rightarrow>
     (case QRNN_loop bern p train n hidden (Suc i) us (Tensor3 out') (next_hidden @ [hn]) g2 of
        Inl e \<Rightarrow> Inl e
      | Inr (res, nh, us', g3) \<Rightarrow> Inr (res, nh, u' # us', g3)))))"

text \<open>Line 222: the final hidden states, joined along the first axis and viewed as
  (\<open>num_layers\<close>, the last two extents of the first of them).\<close>

definition stack_hidden :: "nat \<Rightarrow> tensor list \<Rightarrow> error + tensor" where
  "stack_hidden n next_hidden =
     (case cat_time next_hidden of
        Inl e \<Rightarrow> Inl e
      | Inr joined \<Rightarrow>
          (case next_hidden of
             [] \<Rightarrow> Inl IndexError
           | h0 # _ \<Rightarrow> (case snd (size_t h0) of (B, W) \<Rightarrow> view3 n B W (concat (concat joined)))))"

definition QRNN_forward ::
  "'g sampler \<Rightarrow> QRNN \<Rightarrow> qinput \<Rightarrow> tensor option \<Rightarrow> 'g \<Rightarrow>
   error + qinput \<times> tensor \<times> QRNN \<times> 'g" where
  "QRNN_forward bern q inp hidden g =
     (case QRNN_loop bern (dropout q) (training q) (length (layers q)) hidden 0 (layers q)
             inp [] g of
        Inl e \<Rightarrow> Inl e
      | Inr (res, next_hidden, ls, g') \<Rightarrow>
          (case stack_hidden (num_layers q) next_hidden of
             Inl e \<Rightarrow> Inl e
           | Inr h \<Rightarrow> Inr (res, h, q\<lparr>layers := ls\<rparr>, g')))"

section \<open>Well-formed layers and inputs\<close>

text \<open>The shapes under which the theorems are stated: a projection whose parameters
  have the extents it was constructed with, a layer as \<open>__init__\<close> builds it (window 1
  or 2, a positive hidden size, a zoneout probability in [0, 1], the projection from
  \<open>window * input_size\<close> to 3 or 2 times \<open>hidden_size\<close>) whose cached input, if any, is
  one time step of the batch at hand, and an optional initial state of shape
  (batch, hidden).\<close>

definition wf_linear :: "Linear \<Rightarrow> bool" where
  "wf_linear lin =
     (length (weight lin) = out_features lin \<and> length (bias lin) = out_features lin \<and>
      list_all (\<lambda>w. length w = in_features lin) (weight lin))"

definition wf_layer :: "nat \<Rightarrow> QRNNLayer \<Rightarrow> bool" where
  "wf_layer B l =
     ((window l = 1 \<or> window l = 2) \<and> 0 < hidden_size l \<and>
      0 \<le> zoneout l \<and> zoneout l \<le> 1 \<and> wf_linear (linear l) \<and>
      in_features (linear l) = window l * input_size l \<and>
      out_features (linear l) = (if output_gate l then 3 else 2) * hidden_size l \<and>
      (case prevX l of None \<Rightarrow> True | Some p \<Rightarrow> has_shape 1 B (input_size l) p))"

definition hidden_ok :: "nat \<Rightarrow> nat \<Rightarrow> mat option \<Rightarrow> bool" where
  "hidden_ok B H hidden = (case hidden of None \<Rightarrow> True | Some h \<Rightarrow> has_rows B H h)"

text \<open>A bidirectional layer is well formed when both directions are, with the sizes
  the layer was constructed with.  A stack is well formed when it has at least one
  unit, \<open>num_layers\<close> counts its units, all units are of the kind \<open>bidirectional\<close> says
  and have the stack's hidden size, the first takes the stack's input size and every
  other one the output width of a unit, and the dropout probability lies in [0, 1].\<close>

definition wf_bidir :: "nat \<Rightarrow> BiDirQRNNLayer \<Rightarrow> bool" where
  "wf_bidir B b =
     (wf_layer B (forward_qrnn b) \<and> wf_layer B (backward_qrnn b) \<and>
      input_size (forward_qrnn b) = input_size b \<and>
      input_size (backward_qrnn b) = input_size b \<and>
      hidden_size (forward_qrnn b) = hidden_size b \<and>
      hidden_size (backward_qrnn b) = hidden_size b)"

definition width :: "bool \<Rightarrow> nat \<Rightarrow> nat" where
  "width bidir Dh = Dh * (if bidir then 2 else 1)"

fun wf_unit :: "nat \<Rightarrow> bool \<Rightarrow> nat \<Rightarrow> nat \<Rightarrow> layer_unit \<Rightarrow> bool" where
  "wf_unit B bidir Din Dh (Uni l) =
     (\<not> bidir \<and> wf_layer B l \<and> input_size l = Din \<and> hidden_size l = Dh)"
| "wf_unit B bidir Din Dh (Bi b) =
     (bidir \<and> wf_bidir B b \<and> input_size b = Din \<and> hidden_size b = Dh)"

fun wf_units :: "nat \<Rightarrow> bool \<Rightarrow> nat \<Rightarrow> nat \<Rightarrow> layer_unit list \<Rightarrow> bool" where
  "wf_units B bidir Din Dh [] = True"
| "wf_units B bidir Din Dh (u # us) =
     (wf_unit B bidir Din Dh u \<and> wf_units B bidir (width bidir Dh) Dh us)"

definition wf_stack :: "nat \<Rightarrow> QRNN \<Rightarrow> bool" where
  "wf_stack B q =
     (layers q \<noteq> [] \<and> num_layers q = length (layers q) \<and>
      wf_units B (bidirectional q) (input_size q) (hidden_size q) (layers q) \<and>
      0 \<le> dropout q \<and> dropout q \<le> 1)"

definition stack_hidden_ok :: "nat \<Rightarrow> nat \<Rightarrow> nat \<Rightarrow> tensor option \<Rightarrow> bool" where
  "stack_hidden_ok L B Dh hidden =
     (case hidden of None \<Rightarrow> True | Some h \<Rightarrow> has_shape L B Dh h)"

text \<open>The stack in the words of the spec: the state after the first k layers.  Layer k
  is fed the previous layer's output (layer 0 the external input) and \<open>hidden[k]\<close> when a
  stacked initial state was supplied, none otherwise (an index past the end of the
  stacked state raises); after a layer that is not the last, the configured dropout is
  applied to its output.\<close>

fun layers_after ::
  "'g sampler \<Rightarrow> QRNN \<Rightarrow> qinput \<Rightarrow> tensor option \<Rightarrow> 'g \<Rightarrow> nat \<Rightarrow>
   error + qinput \<times> tensor list \<times> layer_unit list \<times> 'g" where
  "layers_after bern q inp hidden g 0 = Inr (inp, [], [], g)"
| "layers_after bern q inp hidden g (Suc k) =
     (case layers_after bern q inp hidden g k of
        Inl e \<Rightarrow> Inl e
      | Inr (x, hs, us, g1) \<Rightarrow>
     (case (case hidden of
              None \<Rightarrow> Inr None
            | Some h \<Rightarrow> if k < length h then Inr (Some (h ! k)) else Inl IndexError) of
        Inl e \<Rightarrow> Inl e
      | Inr hk \<Rightarrow>
     (case unit_forward bern (layers q ! k) x hk g1 of
        Inl e \<Rightarrow> Inl e
      | Inr (out, hn, u', g2) \<Rightarrow>
     (case (if Suc k < length (layers q) \<and> dropout q \<noteq> 0
            then dropout_fn bern out (dropout q) (training q) g2
            else Inr (out, g2)) of
        Inl e \<Rightarrow> Inl e
      | Inr (out', g3) \<Rightarrow> Inr (Tensor3 out', hs @ [hn], us @ [u'], g3)))))"

text \<open>The value the window of size 2 sees before the first time step: the first element
  of the list \<open>Xm1\<close>.\<close>

definition boundary :: "tensor option \<Rightarrow> tensor \<Rightarrow> tensor" where
  "boundary prev X = (case prev of Some p \<Rightarrow> p | None \<Rightarrow> map_t (\<lambda>x. x * 0) (take 1 X))"

section \<open>Concrete layers and samplers\<close>

text \<open>Parameter draws with every weight 1 and every bias 0 (and draws that are all 0), a sampler whose draws
  alternate between 1 and 0, and two layers of input and hidden size 1 as \<open>__init__\<close>
  builds them from those draws.\<close>

definition ones_draws :: "(nat \<Rightarrow> nat \<Rightarrow> real) \<times> (nat \<Rightarrow> real)" where
  "ones_draws = ((\<lambda>j k. 1), (\<lambda>j. 0))"

definition zero_draws :: "(nat \<Rightarrow> nat \<Rightarrow> real) \<times> (nat \<Rightarrow> real)" where
  "zero_draws = ((\<lambda>j k. 0), (\<lambda>j. 0))"

definition alt_sampler :: "nat sampler" where
  "alt_sampler g p = ((\<lambda>t b j. if even (g + t + b + j) then 1 else 0), Suc g)"

definition layer_w1 :: QRNNLayer where
  "layer_w1 =
     \<lparr> training = True, input_size = 1, hidden_size = 1, window = 1, zoneout = 0,
       save_prev_x = False, prevX = None, output_gate = True, use_cuda = True,
       linear = Linear_init 1 3 ones_draws \<rparr>"

definition layer_w2 :: QRNNLayer where
  "layer_w2 =
     \<lparr> training = True, input_size = 1, hidden_size = 1, window = 2, zoneout = 0,
       save_prev_x = True, prevX = None, output_gate = True, use_cuda = True,
       linear = Linear_init 2 3 ones_draws \<rparr>"

text \<open>The first layer without its output gate, and with a zoneout probability of 1/2.\<close>

definition layer_f :: QRNNLayer where
  "layer_f = layer_w1\<lparr>output_gate := False, linear := Linear_init 1 2 ones_draws\<rparr>"

definition layer_zo :: QRNNLayer where
  "layer_zo = layer_w1\<lparr>zoneout := 1 / 2\<rparr>"

text \<open>The bidirectional layer that \<open>__init__\<close> builds from the same draws with input and
  hidden size 1 and window 1.\<close>

definition bidir_w1 :: BiDirQRNNLayer where
  "bidir_w1 =
     \<lparr> training = True, input_size = 1, hidden_size = 1, window = 1, zoneout = 0,
       save_prev_x = False, prevX = None, output_gate = True, use_cuda = True,
       forward_qrnn = layer_w1, backward_qrnn = layer_w1 \<rparr>"

section \<open>Shapes\<close>

lemma has_rows_iff:
  "has_rows B D M \<longleftrightarrow> length M = B \<and> (\<forall>b<B. length (M ! b) = D)"
  by (auto simp: has_rows_def list_all_length)

lemma has_shape_iff:
  "has_shape T B D X \<longleftrightarrow>
     length X = T \<and> (\<forall>t<T. length (X ! t) = B \<and> (\<forall>b<B. length (X ! t ! b) = D))"
  by (auto simp: has_shape_def list_all_length has_rows_iff)

lemma has_shape_nth: "has_shape T B D X \<Longrightarrow> t < T \<Longrightarrow> has_rows B D (X ! t)"
  by (simp add: has_shape_def list_all_length)

lemma size_t_shape:
  "has_shape T B D X \<Longrightarrow> 0 < T \<Longrightarrow> \<exists>D'. size_t X = (T, B, D')"
  by (cases X) (auto simp: has_shape_def has_rows_def size_t_def size_m_def)

lemma size_t_snd:
  "has_shape T B D X \<Longrightarrow> 0 < T \<Longrightarrow> snd (size_t X) = (B, if B = 0 then 0 else D)"
  by (cases X; cases "hd X") (auto simp: has_shape_def has_rows_def size_t_def size_m_def)

lemma map_t_shape: "has_shape T B D X \<Longrightarrow> has_shape T B D (map_t f X)"
  by (simp add: has_shape_iff map_t_def)

lemma map_t_nth:
  "t < length X \<Longrightarrow> b < length (X ! t) \<Longrightarrow> j < length (X ! t ! b) \<Longrightarrow>
   map_t f X ! t ! b ! j = f (X ! t ! b ! j)"
  by (simp add: map_t_def)

lemma mul_t_shape:
  "has_shape T B D X \<Longrightarrow> has_shape T B D Y \<Longrightarrow> has_shape T B D (mul_t X Y)"
  by (simp add: has_shape_iff mul_t_def)

lemma mul_t_nth:
  "has_shape T B D X \<Longrightarrow> has_shape T B D Y \<Longrightarrow> t < T \<Longrightarrow> b < B \<Longrightarrow> j < D \<Longrightarrow>
   mul_t X Y ! t ! b ! j = X ! t ! b ! j * Y ! t ! b ! j"
  by (simp add: has_shape_iff mul_t_def)

lemma bernoulli_like_shape: "has_shape T B D F \<Longrightarrow> has_shape T B D (bernoulli_like d F)"
  by (simp add: has_shape_iff bernoulli_like_def)

lemma bernoulli_like_nth:
  "has_shape T B D F \<Longrightarrow> t < T \<Longrightarrow> b < B \<Longrightarrow> j < D \<Longrightarrow> bernoulli_like d F ! t ! b ! j = d t b j"
  by (simp add: has_shape_iff bernoulli_like_def)

lemma zoneout_stage_shape:
  "has_shape T B D F \<Longrightarrow> zoneout_stage bern zo train F g = Inr (F', g') \<Longrightarrow>
   has_shape T B D F'"
  by (auto simp: zoneout_stage_def map_t_shape mul_t_shape bernoulli_like_shape
      split: prod.splits if_splits)

lemma zoneout_stage_ok:
  "0 \<le> zo \<Longrightarrow> zo \<le> 1 \<Longrightarrow> \<exists>F' g'. zoneout_stage bern zo train F g = Inr (F', g')"
  by (auto simp: zoneout_stage_def split: prod.splits)

lemma take1_shape: "has_shape T B D X \<Longrightarrow> 0 < T \<Longrightarrow> has_shape 1 B D (take 1 X)"
  by (cases X) (auto simp: has_shape_def)

lemma butlast_shape: "has_shape T B D X \<Longrightarrow> has_shape (T - 1) B D (butlast X)"
  by (auto simp: has_shape_def list_all_iff dest: in_set_butlastD)

lemma append_shape:
  "has_shape T B D X \<Longrightarrow> has_shape U B D Y \<Longrightarrow> has_shape (T + U) B D (X @ Y)"
  by (auto simp: has_shape_def)

lemma last_step_nth: "length C = T \<Longrightarrow> 0 < T \<Longrightarrow> last_step C = [C ! (T - 1)]"
  by (cases C rule: rev_cases) (auto simp: last_step_def)

subsection \<open>View and chunk\<close>

lemma chunks_length [simp]: "length (chunks n k xs) = k"
  by (induction k arbitrary: xs) auto

lemma chunks_numeral:
  "chunks n (numeral k) xs = take n xs # chunks n (pred_numeral k) (drop n xs)"
  by (simp add: numeral_eq_Suc)

lemma chunks_concat:
  "list_all (\<lambda>x. length x = n) xss \<Longrightarrow> chunks n (length xss) (concat xss) = xss"
  by (induction xss) auto

lemma length_concat_uniform:
  "list_all (\<lambda>x. length x = n) xss \<Longrightarrow> length (concat xss) = length xss * n"
  by (induction xss) auto

lemma view3_flat:
  assumes "has_shape T B W Y"
  shows "view3 T B W (concat (concat Y)) = Inr Y"
proof -
  from assms have len: "length Y = T" and mats: "list_all (\<lambda>M. length M = B) Y"
    and rows: "list_all (\<lambda>r. length r = W) (concat Y)"
    by (auto simp: has_shape_def has_rows_def list_all_iff)
  have n: "length (concat Y) = T * B"
    using length_concat_uniform [OF mats] len by simp
  have "length (concat (concat Y)) = T * B * W"
    using length_concat_uniform [OF rows] n by simp
  moreover have "chunks W (T * B) (concat (concat Y)) = concat Y"
    using chunks_concat [OF rows] n by simp
  moreover have "chunks B T (concat Y) = Y"
    using chunks_concat [OF mats] len by simp
  ultimately show ?thesis by (simp add: view3_def)
qed

lemma chunk_piece_length:
  "length r = k * H \<Longrightarrow> i < k \<Longrightarrow> length (chunk_piece k i r) = H"
proof -
  assume r: "length r = k * H" and i: "i < k"
  then have k: "0 < k" by simp
  have s: "(k * H + k - 1) div k = H"
  proof -
    have e: "k * H + k - 1 = (k - 1) + H * k" using k by (simp add: mult.commute)
    have "((k - 1) + H * k) div k = H + (k - 1) div k"
      using k by (intro div_mult_self1) simp
    also have "(k - 1) div k = 0" using k by simp
    finally show ?thesis unfolding e by simp
  qed
  have "i * H + H \<le> k * H"
  proof -
    have "Suc i \<le> k" using i by simp
    then have "Suc i * H \<le> k * H" by (rule mult_le_mono1)
    then show ?thesis by (simp add: add.commute)
  qed
  then show ?thesis using r s by (simp add: chunk_piece_def Let_def)
qed

lemma chunk_t_shape:
  "has_shape T B (k * H) Y \<Longrightarrow> i < k \<Longrightarrow> has_shape T B H (chunk_t k i Y)"
  by (simp add: has_shape_iff chunk_t_def chunk_piece_length)

subsection \<open>The scan\<close>

lemma forget_row_nth:
  "j < length f \<Longrightarrow> j < length z \<Longrightarrow> j < length c \<Longrightarrow>
   forget_row f z c ! j = f ! j * z ! j + (1 - f ! j) * c ! j"
  by (simp add: forget_row_def)

lemma forget_step_nth:
  "b < length Ft \<Longrightarrow> b < length Zt \<Longrightarrow> b < length Cp \<Longrightarrow>
   forget_step Ft Zt Cp ! b = forget_row (Ft ! b) (Zt ! b) (Cp ! b)"
  by (simp add: forget_step_def)

lemma forget_step_rows:
  "has_rows B H Ft \<Longrightarrow> has_rows B H Zt \<Longrightarrow> has_rows B H Cp \<Longrightarrow>
   has_rows B H (forget_step Ft Zt Cp)"
  by (simp add: has_rows_iff forget_step_def forget_row_def)

lemma forget_scan_nth:
  "t < length F \<Longrightarrow> t < length Z \<Longrightarrow>
   forget_scan c F Z ! t =
     forget_step (F ! t) (Z ! t) (if t = 0 then c else forget_scan c F Z ! (t - 1))"
proof (induction c F Z arbitrary: t rule: forget_scan.induct)
  case (1 c f fs z zs)
  show ?case
  proof (cases t)
    case 0
    then show ?thesis by (simp add: Let_def)
  next
    case (Suc k)
    with 1 show ?thesis by (cases k) (auto simp: Let_def)
  qed
qed auto

lemma forget_scan_shape:
  "has_shape T B H F \<Longrightarrow> has_shape T B H Z \<Longrightarrow> has_rows B H c \<Longrightarrow>
   has_shape T B H (forget_scan c F Z)"
proof (induction c F Z arbitrary: T rule: forget_scan.induct)
  case (1 c f fs z zs)
  then obtain T' where T: "T = Suc T'" by (cases T) (auto simp: has_shape_def)
  from 1 T show ?case
    by (auto simp: has_shape_def Let_def forget_step_rows)
qed (auto simp: has_shape_def)

lemma ForgetMult_start:
  assumes F: "has_shape T B H F" and h: "hidden_ok B H hidden" and T: "0 < T"
  shows "\<exists>c0. ForgetMult F Z hidden cuda = forget_scan c0 F Z \<and> has_rows B H c0 \<and>
           (\<forall>b<B. \<forall>j<H. c0 ! b ! j = (case hidden of None \<Rightarrow> 0 | Some c \<Rightarrow> c ! b ! j))"
proof (cases hidden)
  case (Some c)
  with h have "ForgetMult F Z hidden cuda = forget_scan c F Z \<and> has_rows B H c"
    by (simp add: ForgetMult_def hidden_ok_def)
  with Some show ?thesis by auto
next
  case None
  from F T obtain f0 fs where Fc: "F = f0 # fs" by (cases F) (auto simp: has_shape_def)
  let ?z = "map (map (\<lambda>_. 0::real)) f0"
  from Fc F have "has_rows B H ?z" and "\<forall>b<B. \<forall>j<H. ?z ! b ! j = 0"
    by (simp_all add: has_shape_def has_rows_iff)
  moreover from None Fc have "ForgetMult F Z hidden cuda = forget_scan ?z F Z"
    by (simp add: ForgetMult_def)
  ultimately show ?thesis using None by auto
qed

lemma ForgetMult_shape:
  assumes F: "has_shape T B H F" and Z: "has_shape T B H Z" and h: "hidden_ok B H hidden"
    and T: "0 < T"
  shows "has_shape T B H (ForgetMult F Z hidden cuda)"
proof -
  from ForgetMult_start [OF F h T, of Z cuda] obtain c0
    where "ForgetMult F Z hidden cuda = forget_scan c0 F Z" "has_rows B H c0" by blast
  then show ?thesis by (simp add: forget_scan_shape [OF F Z])
qed

lemma ForgetMult_nth:
  assumes F: "has_shape T B H F" and Z: "has_shape T B H Z" and h: "hidden_ok B H hidden"
    and t: "t < T" and b: "b < B" and j: "j < H"
  shows "ForgetMult F Z hidden cuda ! t ! b ! j =
           F ! t ! b ! j * Z ! t ! b ! j +
           (1 - F ! t ! b ! j) *
             (if t = 0 then (case hidden of None \<Rightarrow> 0 | Some c \<Rightarrow> c ! b ! j)
              else ForgetMult F Z hidden cuda ! (t - 1) ! b ! j)"
proof -
  from t have T: "0 < T" by simp
  from ForgetMult_start [OF F h T, of Z cuda] obtain c0
    where FM: "ForgetMult F Z hidden cuda = forget_scan c0 F Z" and c0: "has_rows B H c0"
      and c0v: "c0 ! b ! j = (case hidden of None \<Rightarrow> 0 | Some c \<Rightarrow> c ! b ! j)"
    using b j by blast
  let ?C = "forget_scan c0 F Z"
  let ?p = "if t = 0 then c0 else ?C ! (t - 1)"
  have Cs: "has_shape T B H ?C" by (rule forget_scan_shape [OF F Z c0])
  have p: "has_rows B H ?p"
    using c0 has_shape_nth [OF Cs, of "t - 1"] t by simp
  have Ft: "has_rows B H (F ! t)" and Zt: "has_rows B H (Z ! t)"
    using has_shape_nth [OF F t] has_shape_nth [OF Z t] by simp_all
  from F Z t have "?C ! t = forget_step (F ! t) (Z ! t) ?p"
    by (simp add: forget_scan_nth has_shape_def)
  also have "\<dots> ! b = forget_row (F ! t ! b) (Z ! t ! b) (?p ! b)"
    using Ft Zt p b by (simp add: forget_step_nth has_rows_iff)
  also have "\<dots> ! j = F ! t ! b ! j * Z ! t ! b ! j + (1 - F ! t ! b ! j) * (?p ! b ! j)"
    using Ft Zt p b j by (simp add: forget_row_nth has_rows_iff)
  finally show ?thesis using c0v by (simp add: FM)
qed

subsection \<open>The stages of forward\<close>

lemma affine_length: "wf_linear lin \<Longrightarrow> length (affine lin v) = out_features lin"
  by (simp add: affine_def wf_linear_def)

lemma Linear_forward_D3:
  assumes "wf_linear lin" "has_shape T B (in_features lin) S"
  shows "Linear_forward lin (D3 S) = Inr (D3 (map (map (affine lin)) S))"
    and "has_shape T B (out_features lin) (map (map (affine lin)) S)"
  using assms
  by (auto simp: has_shape_def has_rows_def list_all_iff affine_length)

lemma cat_last_shape:
  assumes "has_shape T B D X" "has_shape T B E Y"
  shows "\<exists>S. cat_last X Y = Inr S \<and> has_shape T B (D + E) S \<and>
           (\<forall>t<T. \<forall>b<B. S ! t ! b = X ! t ! b @ Y ! t ! b)"
proof -
  from assms have ok: "length X = length Y \<and> list_all (\<lambda>(a, b). length a = length b) (zip X Y)"
    by (auto simp: has_shape_iff list_all_length)
  then have "cat_last X Y = Inr (map2 (map2 (@)) X Y)" by (simp add: cat_last_def)
  moreover from assms have "has_shape T B (D + E) (map2 (map2 (@)) X Y)"
    by (simp add: has_shape_iff)
  moreover from assms have "\<forall>t<T. \<forall>b<B. map2 (map2 (@)) X Y ! t ! b = X ! t ! b @ Y ! t ! b"
    by (simp add: has_shape_iff)
  ultimately show ?thesis by blast
qed

lemma boundary_shape:
  assumes X: "has_shape T B D X" and T: "0 < T"
    and prev: "case prev of None \<Rightarrow> True | Some p \<Rightarrow> has_shape 1 B D p"
  shows "has_shape 1 B D (boundary prev X)"
  using prev take1_shape [OF X T] by (auto simp: boundary_def map_t_shape split: option.splits)

lemma cat_time_shifted:
  assumes X: "has_shape T B D X" and T: "0 < T"
    and prev: "case prev of None \<Rightarrow> True | Some p \<Rightarrow> has_shape 1 B D p"
  shows "cat_time (shifted_parts prev X) = Inr (boundary prev X @ butlast X)"
    and "has_shape T B D (boundary prev X @ butlast X)"
proof -
  note bnd = boundary_shape [OF X T prev]
  have parts: "shifted_parts prev X = [boundary prev X] @ (if 1 < T then [butlast X] else [])"
    using X by (simp add: shifted_parts_def boundary_def has_shape_def)
  have bl: "has_shape (T - 1) B D (butlast X)" by (rule butlast_shape [OF X])
  show "cat_time (shifted_parts prev X) = Inr (boundary prev X @ butlast X)"
  proof (cases "1 < T")
    case True
    then have "snd (size_t (butlast X)) = snd (size_t (boundary prev X))"
      using size_t_snd [OF bl] size_t_snd [OF bnd] by simp
    with True show ?thesis by (simp add: parts cat_time_def)
  next
    case False
    with T X have "butlast X = []" by (cases X) (auto simp: has_shape_def)
    with False show ?thesis by (simp add: parts cat_time_def)
  qed
  show "has_shape T B D (boundary prev X @ butlast X)"
    using append_shape [OF bnd bl] T by simp
qed

lemma build_source_shape:
  assumes X: "has_shape T B D X" and T: "0 < T" and win: "win = 1 \<or> win = 2"
    and prev: "case prev of None \<Rightarrow> True | Some p \<Rightarrow> has_shape 1 B D p"
  shows "\<exists>S. build_source win prev (D3 X) = Inr (D3 S) \<and> has_shape T B (win * D) S"
proof (cases "win = 1")
  case True
  with X show ?thesis by simp
next
  case False
  with win have w2: "win = 2" by simp
  note ct = cat_time_shifted [OF X T prev]
  from cat_last_shape [OF X ct(2)] obtain S
    where "cat_last X (boundary prev X @ butlast X) = Inr S" "has_shape T B (D + D) S"
    by blast
  then show ?thesis using w2 ct(1) by (simp add: mult_2)
qed

lemma split_gates_shape:
  assumes "has_shape T B ((if og then 3 else 2) * H) Y"
  shows "\<exists>Z F Og. split_gates og H T B (D3 Y) = Inr (Z, F, Og) \<and>
           has_shape T B H Z \<and> has_shape T B H F \<and>
           (if og then \<exists>G. Og = Some G \<and> has_shape T B H G else Og = None)"
proof (cases og)
  case True
  with assms have Y: "has_shape T B (3 * H) Y" by simp
  show ?thesis using True view3_flat [OF Y] chunk_t_shape [OF Y]
    by (simp add: split_gates_def)
next
  case False
  with assms have Y: "has_shape T B (2 * H) Y" by simp
  show ?thesis using False view3_flat [OF Y] chunk_t_shape [OF Y]
    by (simp add: split_gates_def)
qed

lemma extract_shape_Tensor3:
  "has_shape T B D X \<Longrightarrow> 0 < T \<Longrightarrow> extract_shape (Tensor3 X) = Inr (D3 X, T, B)"
  using size_t_shape [of T B D X] by auto

lemma forward_gates_shape:
  assumes wf: "wf_layer B l" and X: "has_shape T B (input_size l) X" and T: "0 < T"
  shows "\<exists>Z F Og g'. forward_gates bern l (Tensor3 X) g = Inr (D3 X, Z, F, Og, g') \<and>
           has_shape T B (hidden_size l) Z \<and> has_shape T B (hidden_size l) F \<and>
           (if output_gate l then \<exists>G. Og = Some G \<and> has_shape T B (hidden_size l) G
            else Og = None)"
proof -
  from wf have win: "window l = 1 \<or> window l = 2" and lin: "wf_linear (linear l)"
    and inf: "in_features (linear l) = window l * input_size l"
    and outf: "out_features (linear l) = (if output_gate l then 3 else 2) * hidden_size l"
    and prev: "case prevX l of None \<Rightarrow> True | Some p \<Rightarrow> has_shape 1 B (input_size l) p"
    and zo: "0 \<le> zoneout l" "zoneout l \<le> 1"
    by (simp_all add: wf_layer_def)
  from build_source_shape [OF X T win prev] obtain S
    where S: "build_source (window l) (prevX l) (D3 X) = Inr (D3 S)"
      and Ss: "has_shape T B (in_features (linear l)) S"
    by (auto simp: inf)
  note L = Linear_forward_D3 [OF lin Ss]
  from L(2) have Y: "has_shape T B ((if output_gate l then 3 else 2) * hidden_size l)
      (map (map (affine (linear l))) S)"
    by (simp add: outf)
  from split_gates_shape [OF Y] obtain Z F Og
    where sg: "split_gates (output_gate l) (hidden_size l) T B (D3 (map (map (affine (linear l))) S))
                 = Inr (Z, F, Og)"
      and Z: "has_shape T B (hidden_size l) Z" and F: "has_shape T B (hidden_size l) F"
      and Og: "if output_gate l then \<exists>G. Og = Some G \<and> has_shape T B (hidden_size l) G
               else Og = None"
    by blast
  from zoneout_stage_ok [OF zo, of bern "training l" "map_t sigmoid F" g] obtain F' g'
    where zs: "zoneout_stage bern (zoneout l) (training l) (map_t sigmoid F) g = Inr (F', g')"
    by blast
  have F': "has_shape T B (hidden_size l) F'"
    by (rule zoneout_stage_shape [OF map_t_shape [OF F] zs])
  have "forward_gates bern l (Tensor3 X) g = Inr (D3 X, map_t tanh Z, F', Og, g')"
    by (simp only: forward_gates_def extract_shape_Tensor3 [OF X T] S L(1) sg zs
          sum.case prod.case)
  with map_t_shape [OF Z] F' Og show ?thesis by blast
qed

lemma split_gates_pieces:
  "split_gates True 1 1 2 (D3 [[[1, 2, 3], [4, 5, 6]]]) =
     Inr ([[[1], [4]]], [[[2], [5]]], Some [[[3], [6]]])"
  "split_gates False 2 1 1 (D3 [[[1, 2, 3, 4]]]) = Inr ([[[1, 2]]], [[[3, 4]]], None)"
  by (simp_all add: split_gates_def view3_def chunk_t_def chunk_piece_def chunks_numeral)

lemma build_source_D2: "build_source win prev X = Inr S \<Longrightarrow> X = D2 M \<Longrightarrow> win = 1"
  by (auto split: if_splits)

lemma split_gates_Some: "split_gates og H T B Y = Inr (Z, F, Og) \<Longrightarrow> og \<Longrightarrow> Og \<noteq> None"
  by (auto simp: split_gates_def split: sum.splits)

lemma forward_gates_parts:
  assumes "forward_gates bern l inp g = Inr (X, Z, F, Og, g')"
  shows "(output_gate l \<longrightarrow> Og \<noteq> None) \<and> (\<forall>M. X = D2 M \<longrightarrow> window l = 1)"
proof -
  from assms obtain T B S Y Z0 F0 where
    es: "extract_shape inp = Inr (X, T, B)" and
    bs: "build_source (window l) (prevX l) X = Inr S" and
    sg: "split_gates (output_gate l) (hidden_size l) T B Y = Inr (Z0, F0, Og)"
    by (auto simp: forward_gates_def split: sum.splits prod.splits)
  show ?thesis using build_source_D2 [OF bs] split_gates_Some [OF sg] by blast
qed

lemma store_prev_ok:
  "(\<forall>M. X = D2 M \<longrightarrow> window l = 1) \<Longrightarrow> \<exists>l'. store_prev l X = Inr l'"
  by (cases X) (auto simp: store_prev_def)

lemma forward_from_gates:
  assumes gates: "forward_gates bern l inp g = Inr (X, Z, F, Og, g')"
  shows "\<exists>l'. QRNNLayer_forward bern l inp hidden g =
           Inr (if output_gate l
                then mul_t (map_t sigmoid (the Og)) (ForgetMult F Z hidden (use_cuda l))
                else ForgetMult F Z hidden (use_cuda l),
                last_step (ForgetMult F Z hidden (use_cuda l)), l', g') \<and>
              store_prev l X = Inr l'"
proof -
  note p = forward_gates_parts [OF gates]
  from p store_prev_ok obtain l' where sp: "store_prev l X = Inr l'" by blast
  show ?thesis
  proof (cases "output_gate l")
    case True
    with p obtain G where "Og = Some G" by auto
    with True sp show ?thesis
      by (simp add: QRNNLayer_forward_def gates output_stage_def Let_def)
  next
    case False
    with sp show ?thesis
      by (simp add: QRNNLayer_forward_def gates Let_def)
  qed
qed

lemmas eval_defs = QRNNLayer_init_def Linear_init_def ones_draws_def forward_gates_def
  size_t_def size_m_def cat_last_def view3_def chunk_piece_def chunk_t_def affine_def
  map_t_def mul_t_def shifted_parts_def cat_time_def split_gates_def zoneout_stage_def
  bernoulli_like_def has_shape_def has_rows_def hidden_ok_def Let_def upt_rec
  layer_w1_def layer_w2_def alt_sampler_def layer_f_def layer_zo_def

section \<open>The recurrence scan inside forward\<close>

text \<open>
  Claim C1.  Whatever gate array F and candidate array Z of shape (T, batch, hidden) the
  gate stage of \<open>forward\<close> hands to the scan, and whatever optional initial state, the
  scan result C satisfies \<open>C[t] = F[t] * Z[t] + (1 - F[t]) * C[t-1]\<close> in every element,
  for t = 0..T-1, where \<open>C[-1]\<close> is the supplied state, or zero when none is supplied;
  \<open>forward\<close> returns, and the final hidden state it returns is \<open>C[T-1]\<close> as an array of
  one time step.
\<close>

theorem forward_scan_recurrence:
  assumes gates: "forward_gates bern l inp g = Inr (X, Z, F, Og, g')"
    and F: "has_shape T B H F" and Z: "has_shape T B H Z" and T: "0 < T"
    and h: "hidden_ok B H hidden"
  shows "\<exists>C Hout l'.
           C = ForgetMult F Z hidden (use_cuda l) \<and>
           QRNNLayer_forward bern l inp hidden g = Inr (Hout, [C ! (T - 1)], l', g') \<and>
           has_shape T B H C \<and>
           (\<forall>t<T. \<forall>b<B. \<forall>j<H.
              C ! t ! b ! j =
                F ! t ! b ! j * Z ! t ! b ! j +
                (1 - F ! t ! b ! j) *
                  (if t = 0 then (case hidden of None \<Rightarrow> 0 | Some c \<Rightarrow> c ! b ! j)
                   else C ! (t - 1) ! b ! j))"
proof -
  let ?C = "ForgetMult F Z hidden (use_cuda l)"
  have Cs: "has_shape T B H ?C" by (rule ForgetMult_shape [OF F Z h T])
  then have "last_step ?C = [?C ! (T - 1)]" using T by (simp add: last_step_nth has_shape_def)
  with forward_from_gates [OF gates, of hidden] obtain Hout l' where
    "QRNNLayer_forward bern l inp hidden g = Inr (Hout, [?C ! (T - 1)], l', g')"
    by auto
  moreover have "\<forall>t<T. \<forall>b<B. \<forall>j<H.
      ?C ! t ! b ! j = F ! t ! b ! j * Z ! t ! b ! j +
        (1 - F ! t ! b ! j) *
          (if t = 0 then (case hidden of None \<Rightarrow> 0 | Some c \<Rightarrow> c ! b ! j)
           else ?C ! (t - 1) ! b ! j)"
    using ForgetMult_nth [OF F Z h] by blast
  ultimately show ?thesis using Cs by blast
qed

theorem forward_scan_recurrence_witness:
  "forward_gates alt_sampler layer_w1 (Tensor3 [[[1]], [[2]]]) (0::nat) =
     Inr (D3 [[[1]], [[2]]], [[[tanh 1]], [[tanh 2]]], [[[sigmoid 1]], [[sigmoid 2]]],
          Some [[[1]], [[2]]], 0) \<and>
   has_shape 2 1 1 [[[sigmoid 1]], [[sigmoid 2]]] \<and>
   has_shape 2 1 1 [[[tanh 1]], [[tanh 2]]] \<and>
   hidden_ok 1 1 (Some [[4]]) \<and>
   (\<exists>C Hout l'.
      C = ForgetMult [[[sigmoid 1]], [[sigmoid 2]]] [[[tanh 1]], [[tanh 2]]] (Some [[4]])
            (use_cuda layer_w1) \<and>
      QRNNLayer_forward alt_sampler layer_w1 (Tensor3 [[[1]], [[2]]]) (Some [[4]]) 0 =
        Inr (Hout, [C ! (2 - 1)], l', 0) \<and>
      has_shape 2 1 1 C \<and>
      (\<forall>t<2. \<forall>b<1. \<forall>j<1.
         C ! t ! b ! j =
           [[[sigmoid 1]], [[sigmoid 2]]] ! t ! b ! j * [[[tanh 1]], [[tanh 2]]] ! t ! b ! j +
           (1 - [[[sigmoid 1]], [[sigmoid 2]]] ! t ! b ! j) *
             (if t = 0 then (case Some [[4]] of None \<Rightarrow> 0 | Some c \<Rightarrow> c ! b ! j)
              else C ! (t - 1) ! b ! j)))"
proof -
  have g: "forward_gates alt_sampler layer_w1 (Tensor3 [[[1]], [[2]]]) (0::nat) =
     Inr (D3 [[[1]], [[2]]], [[[tanh 1]], [[tanh 2]]], [[[sigmoid 1]], [[sigmoid 2]]],
          Some [[[1]], [[2]]], 0)"
    by (simp add: eval_defs)
  have F: "has_shape 2 1 1 [[[sigmoid 1]], [[sigmoid 2]]]"
    and Z: "has_shape 2 1 1 [[[tanh 1]], [[tanh 2]]]"
    and h: "hidden_ok 1 1 (Some [[4]])"
    by (simp_all add: has_shape_def has_rows_def hidden_ok_def)
  have T: "(0::nat) < 2" by simp
  from forward_scan_recurrence [OF g F Z T h] g F Z h show ?thesis by blast
qed

lemma boundary_nth:
  assumes X: "has_shape T B D X" and T: "0 < T" and b: "b < B"
  shows "boundary prev X ! 0 ! b = (case prev of Some p \<Rightarrow> p ! 0 ! b | None \<Rightarrow> replicate D 0)"
proof (cases prev)
  case None
  from X T obtain x xs where Xc: "X = x # xs" by (cases X) (auto simp: has_shape_def)
  with X b have "length x = B" "length (x ! b) = D" by (auto simp: has_shape_def has_rows_iff)
  with None Xc b show ?thesis
    by (simp add: boundary_def map_t_def map_replicate_const)
next
  case (Some p)
  then show ?thesis by (simp add: boundary_def)
qed

section \<open>The windowed source\<close>

text \<open>
  Claim C3.  For an input X of T >= 1 time steps, the windowed source is X itself when
  the window is 1; when the window is 2 it holds, at every time step t and batch row b,
  the features \<open>X[t]\<close> followed by the features \<open>X[t-1]\<close>, where for t = 0 the latter are
  the cached \<open>prevX\<close> when there is one and zeros of the width of \<open>X[0]\<close> otherwise.  When
  T = 1 the list of pieces of the shifted array holds the boundary value alone (no slice
  of X is taken), and the shifted array has length 1.
\<close>

theorem windowed_source:
  assumes X: "has_shape T B D X" and T: "0 < T"
    and prev: "case prev of None \<Rightarrow> True | Some p \<Rightarrow> has_shape 1 B D p"
  shows "build_source 1 prev (D3 X) = Inr (D3 X) \<and>
         (\<exists>S. build_source 2 prev (D3 X) = Inr (D3 S) \<and> has_shape T B (2 * D) S \<and>
            (\<forall>t<T. \<forall>b<B. S ! t ! b =
               X ! t ! b @ (if t = 0
                            then (case prev of Some p \<Rightarrow> p ! 0 ! b | None \<Rightarrow> replicate D 0)
                            else X ! (t - 1) ! b))) \<and>
         (T = 1 \<longrightarrow>
            shifted_parts prev X =
              [case prev of Some p \<Rightarrow> p | None \<Rightarrow> [replicate B (replicate D 0)]] \<and>
            (\<exists>Xm1. cat_time (shifted_parts prev X) = Inr Xm1 \<and> length Xm1 = 1))"
proof -
  let ?Xm1 = "boundary prev X @ butlast X"
  note ct = cat_time_shifted [OF X T prev]
  note bnd = boundary_shape [OF X T prev]
  from bnd have bl: "length (boundary prev X) = 1" by (simp add: has_shape_def)
  from X have lX: "length X = T" by (simp add: has_shape_def)
  from cat_last_shape [OF X ct(2)] obtain S
    where S: "cat_last X ?Xm1 = Inr S" and Ss: "has_shape T B (D + D) S"
      and Sv: "\<forall>t<T. \<forall>b<B. S ! t ! b = X ! t ! b @ ?Xm1 ! t ! b"
    by blast
  have shift: "?Xm1 ! t ! b =
      (if t = 0 then (case prev of Some p \<Rightarrow> p ! 0 ! b | None \<Rightarrow> replicate D 0)
       else X ! (t - 1) ! b)" if t: "t < T" and b: "b < B" for t b
  proof (cases "t = 0")
    case True
    then show ?thesis using bl boundary_nth [OF X T b, of prev] by (simp add: nth_append)
  next
    case False
    with t lX have "?Xm1 ! t = X ! (t - 1)"
      by (simp add: nth_append bl nth_butlast)
    with False show ?thesis by simp
  qed
  have two: "build_source 2 prev (D3 X) = Inr (D3 S)"
    using ct(1) S by simp
  have one: "shifted_parts prev X =
        [case prev of Some p \<Rightarrow> p | None \<Rightarrow> [replicate B (replicate D 0)]] \<and>
      (\<exists>Xm1. cat_time (shifted_parts prev X) = Inr Xm1 \<and> length Xm1 = 1)" if T1: "T = 1"
  proof -
    from X T1 obtain x where Xc: "X = [x]" and x: "has_rows B D x"
      by (cases X) (auto simp: has_shape_def)
    have "map (map (\<lambda>x. x * 0)) x = replicate B (replicate D (0::real))"
      using x by (auto simp: has_rows_iff intro!: nth_equalityI simp: map_replicate_const)
    then have "shifted_parts prev X =
        [case prev of Some p \<Rightarrow> p | None \<Rightarrow> [replicate B (replicate D 0)]]"
      using Xc by (simp add: shifted_parts_def map_t_def split: option.splits)
    moreover have "length ?Xm1 = 1" using bl Xc by simp
    ultimately show ?thesis using ct(1) by simp
  qed
  show ?thesis using two Ss Sv shift one by (auto simp: mult_2)
qed


theorem windowed_source_witness:
  "has_shape 2 1 2 [[[1, 2]], [[3, 4]]] \<and> has_shape 1 1 2 [[[9, 8]]] \<and>
   build_source 1 (Some [[[9, 8]]]) (D3 [[[1, 2]], [[3, 4]]]) = Inr (D3 [[[1, 2]], [[3, 4]]]) \<and>
   (\<exists>S. build_source 2 (Some [[[9, 8]]]) (D3 [[[1, 2]], [[3, 4]]]) = Inr (D3 S) \<and>
        S ! 0 ! 0 = [1, 2, 9, 8] \<and> S ! 1 ! 0 = [3, 4, 1, 2]) \<and>
   has_shape 1 1 2 [[[5, 6]]] \<and>
   (\<exists>S. build_source 2 None (D3 [[[5, 6]]]) = Inr (D3 S) \<and> S ! 0 ! 0 = [5, 6, 0, 0]) \<and>
   shifted_parts None [[[5, 6]]] = [[[[0, 0]]]] \<and>
   (\<exists>Xm1. cat_time (shifted_parts None [[[5, 6]]]) = Inr Xm1 \<and> length Xm1 = 1)"
proof -
  have X: "has_shape 2 1 2 [[[1, 2]], [[3, 4]]]" and p: "has_shape 1 1 2 [[[9, 8]]]"
    and Y: "has_shape 1 1 2 [[[5, 6]]]"
    by (simp_all add: has_shape_def has_rows_def)
  have a: "build_source 1 (Some [[[9, 8]]]) (D3 [[[1, 2]], [[3, 4]]]) = Inr (D3 [[[1, 2]], [[3, 4]]]) \<and>
     (\<exists>S. build_source 2 (Some [[[9, 8]]]) (D3 [[[1, 2]], [[3, 4]]]) = Inr (D3 S) \<and>
        S ! 0 ! 0 = [1, 2, 9, 8] \<and> S ! 1 ! 0 = [3, 4, 1, 2])"
    using windowed_source [of 2 1 2 "[[[1, 2]], [[3, 4]]]" "Some [[[9, 8]]]"] X p by force
  have b: "(\<exists>S. build_source 2 None (D3 [[[5, 6]]]) = Inr (D3 S) \<and> S ! 0 ! 0 = [5, 6, 0, 0]) \<and>
     shifted_parts None [[[5, 6]]] = [[[[0, 0]]]] \<and>
     (\<exists>Xm1. cat_time (shifted_parts None [[[5, 6]]]) = Inr Xm1 \<and> length Xm1 = 1)"
    using windowed_source [of 1 1 2 "[[[5, 6]]]" None] Y
    by (force simp: numeral_2_eq_2)
  from a b X p Y show ?thesis by blast
qed

lemma forward_gates_zoneout:
  "forward_gates bern l inp g = Inr (X, Z, F', Og, g') \<Longrightarrow>
   \<exists>F0. zoneout_stage bern (zoneout l) (training l) (map_t sigmoid F0) g = Inr (F', g')"
  by (auto simp: forward_gates_def split: sum.splits prod.splits)

section \<open>Zoneout\<close>

text \<open>
  Claim C4.  With zoneout probability p the stage maps the forget gate F (in \<open>forward\<close>,
  the array after the sigmoid) as follows.  When p = 0 it returns F and leaves the
  generator alone, in training and in inference mode.  When p is not 0, in inference
  mode every element is multiplied by 1 - p and nothing is sampled; in training mode,
  for a probability p in [0, 1], the sampler is asked for Bernoulli draws with
  probability 1 - p, one per element, and every element is multiplied by its draw.  (A
  value of p outside [0, 1] is refused by the sampler in training mode.)
\<close>

theorem zoneout_transform:
  assumes F: "has_shape T B H F"
  shows "(p = 0 \<longrightarrow> zoneout_stage bern p train F g = Inr (F, g)) \<and>
         (p \<noteq> 0 \<longrightarrow>
            (\<exists>F'. zoneout_stage bern p False F g = Inr (F', g) \<and>
               has_shape T B H F' \<and>
               (\<forall>t<T. \<forall>b<B. \<forall>j<H. F' ! t ! b ! j = F ! t ! b ! j * (1 - p)))) \<and>
         (p \<noteq> 0 \<and> 0 \<le> p \<and> p \<le> 1 \<longrightarrow>
            (\<exists>d g' F'. bern g (1 - p) = (d, g') \<and>
               zoneout_stage bern p True F g = Inr (F', g') \<and>
               has_shape T B H F' \<and>
               (\<forall>t<T. \<forall>b<B. \<forall>j<H. F' ! t ! b ! j = F ! t ! b ! j * d t b j))) \<and>
         (p < 0 \<or> 1 < p \<longrightarrow> zoneout_stage bern p True F g = Inl RuntimeError) \<and>
         (\<forall>l inp X Z F' Og g'.
            forward_gates bern l inp g = Inr (X, Z, F', Og, g') \<longrightarrow>
            (\<exists>F0. zoneout_stage bern (zoneout l) (training l) (map_t sigmoid F0) g =
                    Inr (F', g')))"
proof -
  have c1: "p = 0 \<longrightarrow> zoneout_stage bern p train F g = Inr (F, g)"
    by (simp add: zoneout_stage_def)
  have c2: "p \<noteq> 0 \<longrightarrow>
            (\<exists>F'. zoneout_stage bern p False F g = Inr (F', g) \<and>
               has_shape T B H F' \<and>
               (\<forall>t<T. \<forall>b<B. \<forall>j<H. F' ! t ! b ! j = F ! t ! b ! j * (1 - p)))"
  proof
    assume p: "p \<noteq> 0"
    let ?F' = "map_t (\<lambda>x. x * (1 - p)) F"
    have st: "zoneout_stage bern p False F g = Inr (?F', g)"
      using p by (simp add: zoneout_stage_def)
    have "?F' ! t ! b ! j = F ! t ! b ! j * (1 - p)" if "t < T" "b < B" "j < H" for t b j
      using that F by (simp add: map_t_nth has_shape_iff)
    with st map_t_shape [OF F] show "\<exists>F'. zoneout_stage bern p False F g = Inr (F', g) \<and>
               has_shape T B H F' \<and>
               (\<forall>t<T. \<forall>b<B. \<forall>j<H. F' ! t ! b ! j = F ! t ! b ! j * (1 - p))"
      by blast
  qed
  have c3: "p \<noteq> 0 \<and> 0 \<le> p \<and> p \<le> 1 \<longrightarrow>
            (\<exists>d g' F'. bern g (1 - p) = (d, g') \<and>
               zoneout_stage bern p True F g = Inr (F', g') \<and>
               has_shape T B H F' \<and>
               (\<forall>t<T. \<forall>b<B. \<forall>j<H. F' ! t ! b ! j = F ! t ! b ! j * d t b j))"
  proof
    assume p: "p \<noteq> 0 \<and> 0 \<le> p \<and> p \<le> 1"
    obtain d g' where dg: "bern g (1 - p) = (d, g')" by (cases "bern g (1 - p)")
    let ?F' = "mul_t F (bernoulli_like d F)"
    have st: "zoneout_stage bern p True F g = Inr (?F', g')"
      using p dg by (simp add: zoneout_stage_def)
    have "?F' ! t ! b ! j = F ! t ! b ! j * d t b j" if "t < T" "b < B" "j < H" for t b j
      using that mul_t_nth [OF F bernoulli_like_shape [OF F, of d]]
        bernoulli_like_nth [OF F, of t b j d]
      by simp
    moreover have "has_shape T B H ?F'"
      by (intro mul_t_shape F bernoulli_like_shape)
    ultimately show "\<exists>d g' F'. bern g (1 - p) = (d, g') \<and>
               zoneout_stage bern p True F g = Inr (F', g') \<and>
               has_shape T B H F' \<and>
               (\<forall>t<T. \<forall>b<B. \<forall>j<H. F' ! t ! b ! j = F ! t ! b ! j * d t b j)"
      using dg st by blast
  qed
  have c4: "p < 0 \<or> 1 < p \<longrightarrow> zoneout_stage bern p True F g = Inl RuntimeError"
    by (auto simp: zoneout_stage_def)
  have c5: "\<forall>l inp X Z F' Og g'.
            forward_gates bern l inp g = Inr (X, Z, F', Og, g') \<longrightarrow>
            (\<exists>F0. zoneout_stage bern (zoneout l) (training l) (map_t sigmoid F0) g =
                    Inr (F', g'))"
    by (intro allI impI) (rule forward_gates_zoneout)
  from c1 c2 c3 c4 c5 show ?thesis by (intro conjI)
qed

theorem zoneout_transform_witness:
  "has_shape 1 1 2 [[[1 / 2, 1 / 4]]] \<and>
   zoneout_stage alt_sampler 0 True [[[1 / 2, 1 / 4]]] (0::nat) = Inr ([[[1 / 2, 1 / 4]]], 0) \<and>
   zoneout_stage alt_sampler 0 False [[[1 / 2, 1 / 4]]] (0::nat) = Inr ([[[1 / 2, 1 / 4]]], 0) \<and>
   (\<exists>F'. zoneout_stage alt_sampler (1 / 2) False [[[1 / 2, 1 / 4]]] (0::nat) = Inr (F', 0) \<and>
      F' ! 0 ! 0 ! 0 = 1 / 4 \<and> F' ! 0 ! 0 ! 1 = 1 / 8) \<and>
   (\<exists>F'. zoneout_stage alt_sampler (1 / 2) True [[[1 / 2, 1 / 4]]] (0::nat) = Inr (F', 1) \<and>
      F' ! 0 ! 0 ! 0 = 1 / 2 \<and> F' ! 0 ! 0 ! 1 = 0) \<and>
   zoneout_stage alt_sampler 2 True [[[1 / 2, 1 / 4]]] (0::nat) = Inl RuntimeError \<and>
   forward_gates alt_sampler layer_zo (Tensor3 [[[1]], [[2]]]) (0::nat) =
     Inr (D3 [[[1]], [[2]]], [[[tanh 1]], [[tanh 2]]], [[[sigmoid 1]], [[0]]],
          Some [[[1]], [[2]]], 1) \<and>
   (\<exists>F0. zoneout_stage alt_sampler (zoneout layer_zo) (training layer_zo) (map_t sigmoid F0) 0 =
            Inr ([[[sigmoid 1]], [[0]]], 1))"
proof -
  let ?F = "[[[1 / 2, 1 / 4]]] :: tensor"
  have F: "has_shape 1 1 2 ?F" by (simp add: has_shape_def has_rows_def)
  have s: "alt_sampler 0 (1 - 1 / 2) = ((\<lambda>t b j. if even (0 + t + b + j) then 1 else 0), 1)"
    by (simp add: alt_sampler_def)
  have g: "forward_gates alt_sampler layer_zo (Tensor3 [[[1]], [[2]]]) (0::nat) =
     Inr (D3 [[[1]], [[2]]], [[[tanh 1]], [[tanh 2]]], [[[sigmoid 1]], [[0]]],
          Some [[[1]], [[2]]], 1)"
    by (simp add: eval_defs)
  note z0t = zoneout_transform [OF F, where p = 0 and bern = alt_sampler and train = True and g = 0]
  note z0f = zoneout_transform [OF F, where p = 0 and bern = alt_sampler and train = False and g = 0]
  note zh = zoneout_transform [OF F, where p = "1 / 2" and bern = alt_sampler and g = 0]
  note z2 = zoneout_transform [OF F, where p = 2 and bern = alt_sampler and g = 0]
  have hz: "(1 / 2 :: real) \<noteq> 0" by simp
  have hp: "(1 / 2 :: real) \<noteq> 0 \<and> (0::real) \<le> 1 / 2 \<and> (1 / 2 :: real) \<le> 1" by simp
  have h2: "(2::real) < 0 \<or> (1::real) < 2" by simp
  have a: "zoneout_stage alt_sampler 0 True ?F (0::nat) = Inr (?F, 0)"
    using z0t [THEN conjunct1] by simp
  have b: "zoneout_stage alt_sampler 0 False ?F (0::nat) = Inr (?F, 0)"
    using z0f [THEN conjunct1] by simp
  from zh [THEN conjunct2, THEN conjunct1, THEN mp, OF hz]
  obtain Fi where fi: "zoneout_stage alt_sampler (1 / 2) False ?F (0::nat) = Inr (Fi, 0)"
    and qi: "\<forall>t<1. \<forall>b<1. \<forall>j<2. Fi ! t ! b ! j = ?F ! t ! b ! j * (1 - 1 / 2)"
    by blast
  have c: "\<exists>F'. zoneout_stage alt_sampler (1 / 2) False ?F (0::nat) = Inr (F', 0) \<and>
      F' ! 0 ! 0 ! 0 = 1 / 4 \<and> F' ! 0 ! 0 ! 1 = 1 / 8"
    using fi qi [rule_format, of 0 0 0] qi [rule_format, of 0 0 1] by simp
  from zh [THEN conjunct2, THEN conjunct2, THEN conjunct1, THEN mp, OF hp]
  obtain d g' Ft where dg: "alt_sampler 0 (1 - 1 / 2) = (d, g')"
    and ft: "zoneout_stage alt_sampler (1 / 2) True ?F (0::nat) = Inr (Ft, g')"
    and q: "\<forall>t<1. \<forall>b<1. \<forall>j<2. Ft ! t ! b ! j = ?F ! t ! b ! j * d t b j"
    by blast
  from dg s have dv: "d = (\<lambda>t b j. if even (0 + t + b + j) then 1 else 0)" and gv: "g' = 1"
    by simp_all
  have d: "\<exists>F'. zoneout_stage alt_sampler (1 / 2) True ?F (0::nat) = Inr (F', 1) \<and>
      F' ! 0 ! 0 ! 0 = 1 / 2 \<and> F' ! 0 ! 0 ! 1 = 0"
    using ft q [rule_format, of 0 0 0] q [rule_format, of 0 0 1] unfolding dv gv by simp
  have r: "zoneout_stage alt_sampler 2 True ?F (0::nat) = Inl RuntimeError"
    using z2 [THEN conjunct2, THEN conjunct2, THEN conjunct2, THEN conjunct1, THEN mp, OF h2] .
  have e: "\<exists>F0. zoneout_stage alt_sampler (zoneout layer_zo) (training layer_zo)
              (map_t sigmoid F0) 0 = Inr ([[[sigmoid 1]], [[0]]], 1)"
    using zh [THEN conjunct2, THEN conjunct2, THEN conjunct2, THEN conjunct2, rule_format, OF g] .
  from F a b c d r e g show ?thesis by (intro conjI)
qed

section \<open>Output gate and returned state\<close>

text \<open>
  Claim C5.  A forward call of a well-formed layer (in particular with a zoneout
  probability in [0, 1]) on an input of T >= 1 time steps returns.  With the output gate enabled the output is, in every element,
  \<open>H[t] = sigmoid(O[t]) * C[t]\<close>, where O is the third gate of the projection and C the
  result of the scan; without it H = C.  In both cases the final hidden state returned
  is \<open>C[T-1]\<close>, the state of the scan before the output gate, as an array of one time
  step.
\<close>

theorem output_gate_and_hidden:
  assumes wf: "wf_layer B l" and X: "has_shape T B (input_size l) X" and T: "0 < T"
    and h: "hidden_ok B (hidden_size l) hidden"
  shows "\<exists>Z F Og g' C H l'.
           forward_gates bern l (Tensor3 X) g = Inr (D3 X, Z, F, Og, g') \<and>
           C = ForgetMult F Z hidden (use_cuda l) \<and>
           QRNNLayer_forward bern l (Tensor3 X) hidden g = Inr (H, [C ! (T - 1)], l', g') \<and>
           has_shape T B (hidden_size l) H \<and>
           (if output_gate l
            then \<exists>G. Og = Some G \<and>
                   (\<forall>t<T. \<forall>b<B. \<forall>j<hidden_size l.
                      H ! t ! b ! j = sigmoid (G ! t ! b ! j) * C ! t ! b ! j)
            else H = C)"
proof -
  from forward_gates_shape [OF wf X T, of bern g] obtain Z F Og g'
    where gates: "forward_gates bern l (Tensor3 X) g = Inr (D3 X, Z, F, Og, g')"
      and Z: "has_shape T B (hidden_size l) Z" and F: "has_shape T B (hidden_size l) F"
      and Og: "if output_gate l then \<exists>G. Og = Some G \<and> has_shape T B (hidden_size l) G
               else Og = None"
    by blast
  let ?C = "ForgetMult F Z hidden (use_cuda l)"
  let ?H = "if output_gate l then mul_t (map_t sigmoid (the Og)) ?C else ?C"
  have Cs: "has_shape T B (hidden_size l) ?C" by (rule ForgetMult_shape [OF F Z h T])
  then have last: "last_step ?C = [?C ! (T - 1)]"
    using T by (simp add: last_step_nth has_shape_def)
  from forward_from_gates [OF gates, of hidden] last obtain l'
    where fw: "QRNNLayer_forward bern l (Tensor3 X) hidden g = Inr (?H, [?C ! (T - 1)], l', g')"
    by auto
  have gate: "if output_gate l
      then \<exists>G. Og = Some G \<and> has_shape T B (hidden_size l) ?H \<and>
             (\<forall>t<T. \<forall>b<B. \<forall>j<hidden_size l.
                ?H ! t ! b ! j = sigmoid (G ! t ! b ! j) * ?C ! t ! b ! j)
      else ?H = ?C"
  proof (cases "output_gate l")
    case True
    with Og obtain G where G: "Og = Some G" and Gs: "has_shape T B (hidden_size l) G" by auto
    note S = map_t_shape [OF Gs, of sigmoid]
    have "mul_t (map_t sigmoid G) ?C ! t ! b ! j = sigmoid (G ! t ! b ! j) * ?C ! t ! b ! j"
      if "t < T" "b < B" "j < hidden_size l" for t b j
      using that mul_t_nth [OF S Cs, of t b j] Gs by (simp add: map_t_nth has_shape_iff)
    with True G mul_t_shape [OF S Cs] show ?thesis by simp
  next
    case False
    then show ?thesis by simp
  qed
  have Hs: "has_shape T B (hidden_size l) ?H"
    using gate Cs by (cases "output_gate l") auto
  show ?thesis
    using gates fw Hs gate by (cases "output_gate l") (simp; blast)+
qed


theorem output_gate_and_hidden_witness:
  "wf_layer 1 layer_w1 \<and> has_shape 2 1 (input_size layer_w1) [[[1]], [[2]]] \<and>
   hidden_ok 1 (hidden_size layer_w1) (Some [[4]]) \<and> output_gate layer_w1 \<and>
   (\<exists>Z F Og g' C H l'.
      forward_gates alt_sampler layer_w1 (Tensor3 [[[1]], [[2]]]) (0::nat) =
        Inr (D3 [[[1]], [[2]]], Z, F, Og, g') \<and>
      C = ForgetMult F Z (Some [[4]]) (use_cuda layer_w1) \<and>
      QRNNLayer_forward alt_sampler layer_w1 (Tensor3 [[[1]], [[2]]]) (Some [[4]]) 0 =
        Inr (H, [C ! (2 - 1)], l', g') \<and>
      has_shape 2 1 (hidden_size layer_w1) H \<and>
      (if output_gate layer_w1
       then \<exists>G. Og = Some G \<and>
              (\<forall>t<2. \<forall>b<1. \<forall>j<hidden_size layer_w1.
                 H ! t ! b ! j = sigmoid (G ! t ! b ! j) * C ! t ! b ! j)
       else H = C)) \<and>
   wf_layer 1 layer_f \<and> has_shape 2 1 (input_size layer_f) [[[1]], [[2]]] \<and>
   hidden_ok 1 (hidden_size layer_f) (Some [[4]]) \<and> \<not> output_gate layer_f \<and>
   (\<exists>Z F Og g' C H l'.
      forward_gates alt_sampler layer_f (Tensor3 [[[1]], [[2]]]) (0::nat) =
        Inr (D3 [[[1]], [[2]]], Z, F, Og, g') \<and>
      C = ForgetMult F Z (Some [[4]]) (use_cuda layer_f) \<and>
      QRNNLayer_forward alt_sampler layer_f (Tensor3 [[[1]], [[2]]]) (Some [[4]]) 0 =
        Inr (H, [C ! (2 - 1)], l', g') \<and>
      has_shape 2 1 (hidden_size layer_f) H \<and>
      (if output_gate layer_f
       then \<exists>G. Og = Some G \<and>
              (\<forall>t<2. \<forall>b<1. \<forall>j<hidden_size layer_f.
                 H ! t ! b ! j = sigmoid (G ! t ! b ! j) * C ! t ! b ! j)
       else H = C))"
proof -
  have w1: "wf_layer 1 layer_w1" and wf: "wf_layer 1 layer_f"
    by (simp_all add: wf_layer_def wf_linear_def eval_defs)
  have X1: "has_shape 2 1 (input_size layer_w1) [[[1]], [[2]]]"
    and Xf: "has_shape 2 1 (input_size layer_f) [[[1]], [[2]]]"
    and h1: "hidden_ok 1 (hidden_size layer_w1) (Some [[4]])"
    and hf: "hidden_ok 1 (hidden_size layer_f) (Some [[4]])"
    and g1: "output_gate layer_w1" and gf: "\<not> output_gate layer_f"
    by (simp_all add: eval_defs)
  have T: "(0::nat) < 2" by simp
  note a = output_gate_and_hidden [OF w1 X1 T h1, of alt_sampler 0]
  note b = output_gate_and_hidden [OF wf Xf T hf, of alt_sampler 0]
  from w1 X1 h1 g1 a wf Xf hf gf b show ?thesis by (intro conjI)
qed


section \<open>Construction with a hidden size of zero\<close>

text \<open>
  Claim C10.  Constructing a \<open>QRNNLayer\<close> or a \<open>BiDirQRNNLayer\<close> with \<open>hidden_size = 0\<close>
  gives the same result as leaving \<open>hidden_size\<close> unspecified: for a window of 1 or 2
  the layer is built, not rejected, and its hidden size (for the bidirectional layer
  also that of both directions) is \<open>input_size\<close>.
\<close>

theorem falsy_hidden_size:
  "QRNNLayer_init n (Some 0) spx zo win og cuda draws =
     QRNNLayer_init n None spx zo win og cuda draws \<and>
   BiDirQRNNLayer_init n (Some 0) spx zo win og cuda draws draws' =
     BiDirQRNNLayer_init n None spx zo win og cuda draws draws' \<and>
   (win = 1 \<or> win = 2 \<longrightarrow>
      (\<exists>l. QRNNLayer_init n (Some 0) spx zo win og cuda draws = Inr l \<and>
           hidden_size l = n \<and> input_size l = n \<and>
           out_features (linear l) = (if og then 3 * n else 2 * n)) \<and>
      (\<exists>b. BiDirQRNNLayer_init n (Some 0) spx zo win og cuda draws draws' = Inr b \<and>
           hidden_size b = n \<and> hidden_size (forward_qrnn b) = n \<and>
           hidden_size (backward_qrnn b) = n))"
  by (auto simp: QRNNLayer_init_def BiDirQRNNLayer_init_def Linear_init_def Let_def)

theorem falsy_hidden_size_witness:
  "(\<exists>l. QRNNLayer_init 5 (Some 0) False 0 1 True True ones_draws = Inr l \<and>
        hidden_size l = 5 \<and> input_size l = 5 \<and> out_features (linear l) = 3 * 5) \<and>
   (\<exists>b. BiDirQRNNLayer_init 5 (Some 0) False 0 2 False True ones_draws ones_draws = Inr b \<and>
        hidden_size b = 5 \<and> hidden_size (forward_qrnn b) = 5 \<and>
        hidden_size (backward_qrnn b) = 5)"
proof -
  have w1: "(1::nat) = 1 \<or> (1::nat) = 2" and w2: "(2::nat) = 1 \<or> (2::nat) = 2" by simp_all
  note a = falsy_hidden_size [of 5 False 0 1 True True ones_draws ones_draws,
      THEN conjunct2, THEN conjunct2, THEN mp, OF w1, THEN conjunct1]
  note b = falsy_hidden_size [of 5 False 0 2 False True ones_draws ones_draws,
      THEN conjunct2, THEN conjunct2, THEN mp, OF w2, THEN conjunct2]
  from a b show ?thesis by simp
qed

lemmas run_defs = eval_defs QRNN_init_def BiDirQRNNLayer_init_def QRNN_forward_def
  hidden_at_def BiDirQRNNLayer_forward_def QRNNLayer_forward_def ForgetMult_def
  forget_step_def forget_row_def output_stage_def store_prev_def last_step_def
  stack_hidden_def QRNN_reset_def dropout_fn_def reset_def

text \<open>A layer in training mode whose zoneout lies outside [0, 1] raises at the sampler.\<close>

lemma forward_zoneout_out_of_range:
  "QRNNLayer_forward alt_sampler (layer_w1\<lparr>zoneout := 2\<rparr>) (Tensor3 [[[1]], [[2]]]) None
     (0::nat) = Inl RuntimeError"
  "\<not> wf_layer 1 (layer_w1\<lparr>zoneout := 2\<rparr>)"
  by (simp_all add: run_defs wf_layer_def)

section \<open>Reset of a stack\<close>

lemma reset_clears: "prevX (reset l) = None" "reset (l\<lparr>prevX := Some p\<rparr>) = l\<lparr>prevX := None\<rparr>"
  by (simp_all add: reset_def)

lemma collect_reset_Bi:
  "Bi b \<in> set us \<Longrightarrow> \<exists>e. collect (map unit_reset us) = Inl e"
proof (induction us)
  case Nil
  then show ?case by simp
next
  case (Cons u us)
  then show ?case by (cases u) (auto split: sum.splits)
qed

lemma collect_reset_error:
  "collect (map unit_reset us) = Inl e \<Longrightarrow> e = AttributeError"
proof (induction us)
  case Nil
  then show ?case by simp
next
  case (Cons u us)
  then show ?case by (cases u) (auto split: sum.splits)
qed

lemma reset_bidirectional:
  "Bi b \<in> set (layers q) \<Longrightarrow> QRNN_reset q = Inl AttributeError"
  using collect_reset_Bi [of b "layers q"] collect_reset_error [of "layers q"]
  by (auto simp: QRNN_reset_def)

lemma collect_reset_Uni:
  "collect (map unit_reset (map Uni ls)) = Inr (map (\<lambda>l. Uni (reset l)) ls)"
  by (induction ls) auto

lemma reset_unidirectional:
  "layers q = map Uni ls \<Longrightarrow>
   QRNN_reset q = Inr (q\<lparr>layers := map (\<lambda>l. Uni (reset l)) ls\<rparr>)"
  by (simp add: QRNN_reset_def collect_reset_Uni del: map_map)

text \<open>
  Claim C6.  \<open>QRNN.reset\<close> calls \<open>reset\<close> on every unit.  A stack of plain layers is
  reset as a whole (\<open>reset_unidirectional\<close>).  \<open>BiDirQRNNLayer\<close> has no \<open>reset\<close>: on a
  stack with a bidirectional unit the call raises (\<open>reset_bidirectional\<close>).  Here a
  bidirectional stack of one layer with window 2 and \<open>save_prev_x\<close> is run once on a
  sequence ending in 2; both directions now cache their last input, \<open>reset\<close> raises
  \<open>AttributeError\<close>, and the forward direction would start the next sequence from the
  cached 2 rather than from zero.
\<close>

theorem reset_bidirectional_raises:
  "\<exists>q q' out h g' b.
     QRNN_init 1 1 1 True False 0 True None True 0 2 True True (\<lambda>k. ones_draws) = Inr q \<and>
     QRNN_forward alt_sampler q (Tensor3 [[[1]], [[2]]]) None (0::nat) = Inr (out, h, q', g') \<and>
     layers q' = [Bi b] \<and>
     prevX (forward_qrnn b) = Some [[[2]]] \<and> prevX (backward_qrnn b) = Some [[[1]]] \<and>
     QRNN_reset q' = Inl AttributeError \<and>
     build_source (window (forward_qrnn b)) (prevX (forward_qrnn b)) (D3 [[[7]]]) =
       Inr (D3 [[[7, 2]]])"
  by (simp add: run_defs)



section \<open>Inputs that are not arrays of three axes\<close>




section \<open>The bidirectional layer\<close>

lemma forward_shape:
  assumes wf: "wf_layer B l" and X: "has_shape T B (input_size l) X" and T: "0 < T"
    and h: "hidden_ok B (hidden_size l) hidden"
  shows "\<exists>H hn l' g'.
           QRNNLayer_forward bern l (Tensor3 X) hidden g = Inr (H, hn, l', g') \<and>
           has_shape T B (hidden_size l) H \<and> has_shape 1 B (hidden_size l) hn"
proof -
  from forward_gates_shape [OF wf X T, of bern g] obtain Z F Og g'
    where gates: "forward_gates bern l (Tensor3 X) g = Inr (D3 X, Z, F, Og, g')"
      and Z: "has_shape T B (hidden_size l) Z" and F: "has_shape T B (hidden_size l) F"
      and Og: "if output_gate l then \<exists>G. Og = Some G \<and> has_shape T B (hidden_size l) G
               else Og = None"
    by blast
  let ?C = "ForgetMult F Z hidden (use_cuda l)"
  let ?H = "if output_gate l then mul_t (map_t sigmoid (the Og)) ?C else ?C"
  have Cs: "has_shape T B (hidden_size l) ?C" by (rule ForgetMult_shape [OF F Z h T])
  from Cs T have hn: "has_shape 1 B (hidden_size l) (last_step ?C)"
    by (simp add: has_shape_def last_step_nth [of ?C T] list_all_length)
  have Hs: "has_shape T B (hidden_size l) ?H"
    using Og Cs by (auto simp: mul_t_shape map_t_shape)
  from forward_from_gates [OF gates, of hidden] obtain l'
    where "QRNNLayer_forward bern l (Tensor3 X) hidden g = Inr (?H, last_step ?C, l', g')"
    by blast
  with Hs hn show ?thesis by blast
qed

lemma rev_shape: "has_shape T B D X \<Longrightarrow> has_shape T B D (rev X)"
  by (simp add: has_shape_def list_all_iff)

text \<open>
  Claim C8.  On an input X of T >= 1 time steps and an optional initial state, the
  bidirectional layer (both directions well formed, so with zoneout in [0, 1]) runs its forward layer on X and its backward layer on X reversed
  along time, both with the caller's initial state as it was given, reverses the
  backward output, and returns the two outputs joined along the feature axis and the
  two final hidden states joined along the feature axis: both are twice as wide as
  those of one direction.
\<close>

theorem bidirectional_combiner:
  assumes wf: "wf_bidir B bl" and X: "has_shape T B (input_size bl) X" and T: "0 < T"
    and h: "hidden_ok B (hidden_size bl) hidden"
  shows "\<exists>fwd h_fwd fl g1 bwd h_bwd br g2 out hcat.
           QRNNLayer_forward bern (forward_qrnn bl) (Tensor3 X) hidden g =
             Inr (fwd, h_fwd, fl, g1) \<and>
           QRNNLayer_forward bern (backward_qrnn bl) (Tensor3 (rev X)) hidden g1 =
             Inr (bwd, h_bwd, br, g2) \<and>
           BiDirQRNNLayer_forward bern bl (Tensor3 X) hidden g =
             Inr (out, hcat, bl\<lparr>forward_qrnn := fl, backward_qrnn := br\<rparr>, g2) \<and>
           has_shape T B (hidden_size bl) fwd \<and> has_shape T B (hidden_size bl) bwd \<and>
           has_shape 1 B (hidden_size bl) h_fwd \<and> has_shape 1 B (hidden_size bl) h_bwd \<and>
           has_shape T B (2 * hidden_size bl) out \<and>
           has_shape 1 B (2 * hidden_size bl) hcat \<and>
           (\<forall>t<T. \<forall>b<B. out ! t ! b = fwd ! t ! b @ bwd ! (T - 1 - t) ! b) \<and>
           (\<forall>b<B. hcat ! 0 ! b = h_fwd ! 0 ! b @ h_bwd ! 0 ! b)"
proof -
  let ?H = "hidden_size bl"
  from wf have wff: "wf_layer B (forward_qrnn bl)" and wfb: "wf_layer B (backward_qrnn bl)"
    and inf: "input_size (forward_qrnn bl) = input_size bl"
    and inb: "input_size (backward_qrnn bl) = input_size bl"
    and hf: "hidden_size (forward_qrnn bl) = ?H"
    and hb: "hidden_size (backward_qrnn bl) = ?H"
    by (simp_all add: wf_bidir_def)
  from forward_shape [OF wff, of T X hidden bern g] X T h inf hf obtain fwd h_fwd fl g1
    where f: "QRNNLayer_forward bern (forward_qrnn bl) (Tensor3 X) hidden g =
                Inr (fwd, h_fwd, fl, g1)"
      and fs: "has_shape T B ?H fwd" and hfs: "has_shape 1 B ?H h_fwd"
    by auto
  from forward_shape [OF wfb, of T "rev X" hidden bern g1] rev_shape [OF X] T h inb hb
  obtain bwd h_bwd br g2
    where b: "QRNNLayer_forward bern (backward_qrnn bl) (Tensor3 (rev X)) hidden g1 =
                Inr (bwd, h_bwd, br, g2)"
      and bs: "has_shape T B ?H bwd" and hbs: "has_shape 1 B ?H h_bwd"
    by auto
  from cat_last_shape [OF fs rev_shape [OF bs]] obtain out
    where o: "cat_last fwd (rev bwd) = Inr out" and os: "has_shape T B (?H + ?H) out"
      and ov: "\<forall>t<T. \<forall>b<B. out ! t ! b = fwd ! t ! b @ rev bwd ! t ! b"
    by blast
  from cat_last_shape [OF hfs hbs] obtain hcat
    where c: "cat_last h_fwd h_bwd = Inr hcat" and cs: "has_shape 1 B (?H + ?H) hcat"
      and cv: "\<forall>t<1. \<forall>b<B. hcat ! t ! b = h_fwd ! t ! b @ h_bwd ! t ! b"
    by blast
  from bs have lb: "length bwd = T" by (simp add: has_shape_def)
  have ov': "\<forall>t<T. \<forall>b<B. out ! t ! b = fwd ! t ! b @ bwd ! (T - 1 - t) ! b"
    using ov lb by (simp add: rev_nth)
  have run: "BiDirQRNNLayer_forward bern bl (Tensor3 X) hidden g =
      Inr (out, hcat, bl\<lparr>forward_qrnn := fl, backward_qrnn := br\<rparr>, g2)"
  proof -
    have hid: "(if hidden \<noteq> None then hidden else None) = hidden" by simp
    show ?thesis
      by (simp only: BiDirQRNNLayer_forward_def hid f flip0.simps b o c sum.case prod.case)
  qed
  from f b run fs bs hfs hbs os cs ov' cv show ?thesis
    by (simp add: mult_2)
qed


lemma init_layer_w1:
  "QRNNLayer_init 1 (Some 1) False 0 1 True True ones_draws = Inr layer_w1"
  by (simp add: QRNNLayer_init_def layer_w1_def)

lemma init_layer_w2:
  "QRNNLayer_init 1 (Some 1) True 0 2 True True ones_draws = Inr layer_w2"
  by (simp add: QRNNLayer_init_def layer_w2_def)

lemma init_bidir_w1:
  "BiDirQRNNLayer_init 1 (Some 1) False 0 1 True True ones_draws ones_draws = Inr bidir_w1"
  unfolding BiDirQRNNLayer_init_def init_layer_w1 bidir_w1_def by simp

theorem bidirectional_combiner_witness:
  "wf_bidir 1 bidir_w1 \<and> has_shape 2 1 (input_size bidir_w1) [[[1]], [[2]]] \<and>
   hidden_ok 1 (hidden_size bidir_w1) (Some [[4]]) \<and>
   (\<exists>fwd h_fwd fl g1 bwd h_bwd br g2 out hcat.
      QRNNLayer_forward alt_sampler (forward_qrnn bidir_w1) (Tensor3 [[[1]], [[2]]])
          (Some [[4]]) (0::nat) = Inr (fwd, h_fwd, fl, g1) \<and>
      QRNNLayer_forward alt_sampler (backward_qrnn bidir_w1) (Tensor3 (rev [[[1]], [[2]]]))
          (Some [[4]]) g1 = Inr (bwd, h_bwd, br, g2) \<and>
      BiDirQRNNLayer_forward alt_sampler bidir_w1 (Tensor3 [[[1]], [[2]]]) (Some [[4]]) 0 =
        Inr (out, hcat, bidir_w1\<lparr>forward_qrnn := fl, backward_qrnn := br\<rparr>, g2) \<and>
      has_shape 2 1 (hidden_size bidir_w1) fwd \<and> has_shape 2 1 (hidden_size bidir_w1) bwd \<and>
      has_shape 1 1 (hidden_size bidir_w1) h_fwd \<and>
      has_shape 1 1 (hidden_size bidir_w1) h_bwd \<and>
      has_shape 2 1 (2 * hidden_size bidir_w1) out \<and>
      has_shape 1 1 (2 * hidden_size bidir_w1) hcat \<and>
      (\<forall>t<2. \<forall>b<1. out ! t ! b = fwd ! t ! b @ bwd ! (2 - 1 - t) ! b) \<and>
      (\<forall>b<1. hcat ! 0 ! b = h_fwd ! 0 ! b @ h_bwd ! 0 ! b))"
proof -
  have w: "wf_bidir 1 bidir_w1"
    by (simp add: wf_bidir_def wf_layer_def wf_linear_def bidir_w1_def eval_defs)
  have X: "has_shape 2 1 (input_size bidir_w1) [[[1]], [[2]]]"
    and h: "hidden_ok 1 (hidden_size bidir_w1) (Some [[4]])"
    by (simp_all add: bidir_w1_def eval_defs)
  have T: "(0::nat) < 2" by simp
  from w X h bidirectional_combiner [OF w X T h, of alt_sampler 0] show ?thesis
    by (intro conjI)
qed

section \<open>The stack\<close>

lemma width_simps [simp]: "width False Dh = Dh" "width True Dh = 2 * Dh"
  by (simp_all add: width_def)

lemma unit_forward_shape:
  assumes wf: "wf_unit B bidir Din Dh u" and X: "has_shape T B Din X" and T: "0 < T"
    and h: "hidden_ok B Dh hid"
  shows "\<exists>out hn u' g'.
           unit_forward bern u (Tensor3 X) hid g = Inr (out, hn, u', g') \<and>
           has_shape T B (width bidir Dh) out \<and> has_shape 1 B (width bidir Dh) hn"
proof (cases u)
  case (Uni l)
  with wf have l: "wf_layer B l" "input_size l = Din" "hidden_size l = Dh" "\<not> bidir"
    by simp_all
  from forward_shape [OF l(1), of T X hid bern g] X T h l obtain H hn l' g'
    where "QRNNLayer_forward bern l (Tensor3 X) hid g = Inr (H, hn, l', g')"
      "has_shape T B Dh H" "has_shape 1 B Dh hn"
    by auto
  with Uni l(4) show ?thesis by simp
next
  case (Bi bl)
  with wf have bd: "bidir" and wb: "wf_bidir B bl" and sz: "input_size bl = Din" "hidden_size bl = Dh"
    by simp_all
  from wb sz have wff: "wf_layer B (forward_qrnn bl)" and wfb: "wf_layer B (backward_qrnn bl)"
    and inf: "input_size (forward_qrnn bl) = Din" and inb: "input_size (backward_qrnn bl) = Din"
    and hf: "hidden_size (forward_qrnn bl) = Dh" and hb: "hidden_size (backward_qrnn bl) = Dh"
    by (simp_all add: wf_bidir_def)
  from forward_shape [OF wff, of T X hid bern g] X T h inf hf obtain fwd h_fwd fl g1
    where f: "QRNNLayer_forward bern (forward_qrnn bl) (Tensor3 X) hid g =
                Inr (fwd, h_fwd, fl, g1)"
      and fs: "has_shape T B Dh fwd" and hfs: "has_shape 1 B Dh h_fwd"
    by auto
  from forward_shape [OF wfb, of T "rev X" hid bern g1] rev_shape [OF X] T h inb hb
  obtain bwd h_bwd br g2
    where b: "QRNNLayer_forward bern (backward_qrnn bl) (Tensor3 (rev X)) hid g1 =
                Inr (bwd, h_bwd, br, g2)"
      and bs: "has_shape T B Dh bwd" and hbs: "has_shape 1 B Dh h_bwd"
    by auto
  from cat_last_shape [OF fs rev_shape [OF bs]] obtain out
    where o: "cat_last fwd (rev bwd) = Inr out" and os: "has_shape T B (Dh + Dh) out"
    by blast
  from cat_last_shape [OF hfs hbs] obtain hcat
    where c: "cat_last h_fwd h_bwd = Inr hcat" and cs: "has_shape 1 B (Dh + Dh) hcat"
    by blast
  have hid: "(if hid \<noteq> None then hid else None) = hid" by simp
  have "BiDirQRNNLayer_forward bern bl (Tensor3 X) hid g =
      Inr (out, hcat, bl\<lparr>forward_qrnn := fl, backward_qrnn := br\<rparr>, g2)"
    by (simp only: BiDirQRNNLayer_forward_def hid f flip0.simps b o c sum.case prod.case)
  with Bi bd os cs show ?thesis by (simp add: mult_2)
qed

lemma dropout_fn_shape:
  assumes X: "has_shape T B W X" and p: "0 \<le> p" "p \<le> 1"
  shows "\<exists>out g'. dropout_fn bern X p train g = Inr (out, g') \<and> has_shape T B W out"
proof -
  obtain d g' where dg: "bern g (1 - p) = (d, g')" by (cases "bern g (1 - p)")
  have "has_shape T B W (map_t (\<lambda>x. x / (1 - p)) (mul_t X (bernoulli_like d X)))"
    by (intro map_t_shape mul_t_shape X bernoulli_like_shape)
  with X p dg show ?thesis
    by (auto simp: dropout_fn_def map_t_shape)
qed

lemma hidden_at_ok:
  assumes "stack_hidden_ok L B Dh hidden" "i < L"
  shows "\<exists>hi. hidden_at hidden i = Inr hi \<and> hidden_ok B Dh hi"
  using assms
  by (cases hidden) (auto simp: stack_hidden_ok_def hidden_at_def hidden_ok_def has_shape_def
      list_all_length)

lemma QRNN_loop_shape:
  assumes "wf_units B bidir Din Dh us" and "has_shape T B Din X" and "0 < T"
    and "stack_hidden_ok L B Dh hidden" and "i + length us \<le> L"
    and "0 \<le> p" "p \<le> 1"
    and "list_all (has_shape 1 B (width bidir Dh)) nh"
  shows "\<exists>res nh' us' g'.
           QRNN_loop bern p train n hidden i us (Tensor3 X) nh g = Inr (res, nh', us', g') \<and>
           length nh' = length nh + length us \<and>
           list_all (has_shape 1 B (width bidir Dh)) nh' \<and>
           (us \<noteq> [] \<longrightarrow> (\<exists>out. res = Tensor3 out \<and> has_shape T B (width bidir Dh) out))"
  using assms
proof (induction us arbitrary: i Din X nh g)
  case Nil
  then show ?case by simp
next
  case (Cons u us)
  from Cons.prems have wu: "wf_unit B bidir Din Dh u"
    and wus: "wf_units B bidir (width bidir Dh) Dh us" and iL: "i < L"
    by simp_all
  from hidden_at_ok [OF Cons.prems(4) iL] obtain hi
    where hi: "hidden_at hidden i = Inr hi" and hok: "hidden_ok B Dh hi" by blast
  from unit_forward_shape [OF wu Cons.prems(2) Cons.prems(3) hok, of bern g]
  obtain out hn u' g1
    where uf: "unit_forward bern u (Tensor3 X) hi g = Inr (out, hn, u', g1)"
      and os: "has_shape T B (width bidir Dh) out"
      and hs: "has_shape 1 B (width bidir Dh) hn"
    by blast
  let ?d = "if p \<noteq> 0 \<and> int i < int n - 1 then dropout_fn bern out p train g1
            else Inr (out, g1)"
  from dropout_fn_shape [OF os Cons.prems(6) Cons.prems(7), of bern train g1] os
  obtain out' g2 where d: "?d = Inr (out', g2)" and os': "has_shape T B (width bidir Dh) out'"
    by (cases "p \<noteq> 0 \<and> int i < int n - 1") auto
  have nh: "list_all (has_shape 1 B (width bidir Dh)) (nh @ [hn])"
    using Cons.prems(8) hs by simp
  have iL': "Suc i + length us \<le> L" using Cons.prems(5) by simp
  from Cons.IH [OF wus os' Cons.prems(3) Cons.prems(4) iL' Cons.prems(6) Cons.prems(7) nh,
      of g2]
  obtain res nh' us' g'
    where rec: "QRNN_loop bern p train n hidden (Suc i) us (Tensor3 out') (nh @ [hn]) g2 =
                  Inr (res, nh', us', g')"
      and len: "length nh' = length (nh @ [hn]) + length us"
      and all: "list_all (has_shape 1 B (width bidir Dh)) nh'"
      and res: "us \<noteq> [] \<longrightarrow> (\<exists>o'. res = Tensor3 o' \<and> has_shape T B (width bidir Dh) o')"
    by blast
  have run: "QRNN_loop bern p train n hidden i (u # us) (Tensor3 X) nh g =
      Inr (res, nh', u' # us', g')"
    by (simp only: QRNN_loop.simps hi uf d rec sum.case prod.case)
  have "\<exists>o'. res = Tensor3 o' \<and> has_shape T B (width bidir Dh) o'"
  proof (cases us)
    case Nil
    with rec have "res = Tensor3 out'" by simp
    with os' show ?thesis by simp
  next
    case (Cons a list)
    with res show ?thesis by simp
  qed
  with run len all show ?case by simp
qed


lemma concat_steps_shape:
  "list_all (has_shape 1 B W) nh \<Longrightarrow> has_shape (length nh) B W (concat nh)"
proof (induction nh)
  case Nil
  then show ?case by (simp add: has_shape_def)
next
  case (Cons h hs)
  then have "has_shape 1 B W h" "has_shape (length hs) B W (concat hs)" by simp_all
  from append_shape [OF this] show ?case by simp
qed

lemma stack_hidden_shape:
  assumes all: "list_all (has_shape 1 B W) nh" and L: "length nh = L" "0 < L" and B: "0 < B"
  shows "stack_hidden L nh = Inr (concat nh) \<and> has_shape L B W (concat nh)"
proof -
  from L obtain h0 hs where nh: "nh = h0 # hs" by (cases nh) auto
  have sz: "snd (size_t P) = (B, W)" if "P \<in> set nh" for P
  proof -
    from that all have "has_shape 1 B W P" by (simp add: list_all_iff)
    from size_t_snd [OF this] B show ?thesis by simp
  qed
  then have "list_all (\<lambda>P. snd (size_t P) = snd (size_t (hd nh))) nh"
    using nh by (simp add: list_all_iff)
  then have ct: "cat_time nh = Inr (concat nh)" using nh by (simp add: cat_time_def)
  have cs: "has_shape L B W (concat nh)" using concat_steps_shape [OF all] L by simp
  have h0: "snd (size_t h0) = (B, W)" using sz nh by simp
  have "stack_hidden L nh =
      (case nh of [] \<Rightarrow> Inl IndexError
       | h0 # _ \<Rightarrow> (case snd (size_t h0) of
                     (B, W) \<Rightarrow> view3 L B W (concat (concat (concat nh)))))"
    by (simp add: stack_hidden_def ct)
  also have "\<dots> = view3 L B W (concat (concat (concat nh)))"
    by (simp add: nh h0)
  finally show ?thesis using view3_flat [OF cs] cs by simp
qed

lemma layers_after_error:
  "layers_after bern q inp hidden g k = Inl e \<Longrightarrow>
   layers_after bern q inp hidden g (k + m) = Inl e"
  by (induction m) simp_all

lemma hidden_at_index:
  "hidden_at hidden k =
     (case hidden of
        None \<Rightarrow> Inr None
      | Some h \<Rightarrow> if k < length h then Inr (Some (h ! k)) else Inl IndexError)"
  by (simp add: hidden_at_def)

lemma layers_after_Suc:
  "layers_after bern q inp hidden g (Suc k) =
     (case layers_after bern q inp hidden g k of
        Inl e \<Rightarrow> Inl e
      | Inr (x, hs, us, g1) \<Rightarrow>
     (case hidden_at hidden k of
        Inl e \<Rightarrow> Inl e
      | Inr hk \<Rightarrow>
     (case unit_forward bern (layers q ! k) x hk g1 of
        Inl e \<Rightarrow> Inl e
      | Inr (out, hn, u', g2) \<Rightarrow>
     (case (if Suc k < length (layers q) \<and> dropout q \<noteq> 0
            then dropout_fn bern out (dropout q) (training q) g2
            else Inr (out, g2)) of
        Inl e \<Rightarrow> Inl e
      | Inr (out', g3) \<Rightarrow> Inr (Tensor3 out', hs @ [hn], us @ [u'], g3)))))"
  by (simp only: layers_after.simps hidden_at_index)

lemma loop_refines:
  assumes "layers_after bern q inp hidden g i = Inr (x, hs, pre, g1)"
    and "drop i (layers q) = us" and "i \<le> length (layers q)"
  shows "layers_after bern q inp hidden g (length (layers q)) =
           (case QRNN_loop bern (dropout q) (training q) (length (layers q)) hidden i us x hs g1 of
              Inl e \<Rightarrow> Inl e
            | Inr (res, nh, us', g') \<Rightarrow> Inr (res, nh, pre @ us', g'))"
  supply layers_after.simps(2) [simp del] layers_after_Suc [simp]
  using assms
proof (induction us arbitrary: i x hs pre g1)
  case Nil
  then have "i = length (layers q)" by simp
  with Nil show ?case by simp
next
  case (Cons u us)
  let ?L = "length (layers q)"
  from Cons.prems(2) have iL: "i < ?L" by (cases "i < ?L") auto
  from Cons_nth_drop_Suc [OF iL] Cons.prems(2)
  have u: "layers q ! i = u" and us: "drop (Suc i) (layers q) = us" by simp_all
  have cond: "(Suc i < ?L \<and> dropout q \<noteq> 0) = (dropout q \<noteq> 0 \<and> int i < int ?L - 1)"
    by auto
  obtain m where m: "?L = Suc i + m" using iL by (metis Suc_leI le_Suc_ex)
  show ?case
  proof (cases "layers_after bern q inp hidden g (Suc i)")
    case (Inl e)
    from layers_after_error [OF Inl, of m] m have all: "layers_after bern q inp hidden g ?L = Inl e"
      by simp
    from Inl Cons.prems(1) u cond
    have "QRNN_loop bern (dropout q) (training q) ?L hidden i (u # us) x hs g1 = Inl e"
      by (auto split: sum.splits prod.splits if_splits)
    with all show ?thesis by simp
  next
    case (Inr r)
    then obtain x' hs' pre' g2 where r: "r = (x', hs', pre', g2)" by (cases r) auto
    from Inr r Cons.prems(1) u cond obtain hk out hn u' gm out'
      where hk: "hidden_at hidden i = Inr hk"
        and uf: "unit_forward bern u x hk g1 = Inr (out, hn, u', gm)"
        and dr: "(if dropout q \<noteq> 0 \<and> int i < int ?L - 1
                  then dropout_fn bern out (dropout q) (training q) gm
                  else Inr (out, gm)) = Inr (out', g2)"
        and x': "x' = Tensor3 out'" and hs': "hs' = hs @ [hn]" and pre': "pre' = pre @ [u']"
      by (auto split: sum.splits prod.splits)
    have step: "QRNN_loop bern (dropout q) (training q) ?L hidden i (u # us) x hs g1 =
        (case QRNN_loop bern (dropout q) (training q) ?L hidden (Suc i) us (Tensor3 out')
                (hs @ [hn]) g2 of
           Inl e \<Rightarrow> Inl e
         | Inr (res, nh, us', g3) \<Rightarrow> Inr (res, nh, u' # us', g3))"
      by (simp only: QRNN_loop.simps hk uf dr sum.case prod.case)
    from Inr r x' hs' pre'
    have la: "layers_after bern q inp hidden g (Suc i) = Inr (Tensor3 out', hs @ [hn], pre @ [u'], g2)"
      by simp
    from Cons.IH [OF la us] iL
    have "layers_after bern q inp hidden g ?L =
        (case QRNN_loop bern (dropout q) (training q) ?L hidden (Suc i) us (Tensor3 out')
                (hs @ [hn]) g2 of
           Inl e \<Rightarrow> Inl e
         | Inr (res, nh, us', g') \<Rightarrow> Inr (res, nh, (pre @ [u']) @ us', g'))"
      by simp
    then show ?thesis unfolding step by (auto split: sum.splits)
  qed
qed

lemma QRNN_loop_refines:
  "QRNN_loop bern (dropout q) (training q) (length (layers q)) hidden 0 (layers q) inp [] g =
     layers_after bern q inp hidden g (length (layers q))"
  using loop_refines [of bern q inp hidden g 0 inp "[]" "[]" g "layers q"]
  by (auto split: sum.splits)


lemma dropout_inference:
  "0 \<le> p \<Longrightarrow> p \<le> 1 \<Longrightarrow> dropout_fn bern Y p False g = Inr (Y, g)"
  by (simp add: dropout_fn_def)

lemma dropout_training:
  assumes Y: "has_shape T B W Y" and p: "0 \<le> p" "p \<le> 1" "p \<noteq> 0" "p \<noteq> 1"
  shows "\<exists>d g' Y'. bern g (1 - p) = (d, g') \<and> dropout_fn bern Y p True g = Inr (Y', g') \<and>
           (\<forall>t<T. \<forall>b<B. \<forall>j<W. Y' ! t ! b ! j = Y ! t ! b ! j * d t b j / (1 - p))"
proof -
  obtain d g' where dg: "bern g (1 - p) = (d, g')" by (cases "bern g (1 - p)")
  let ?M = "mul_t Y (bernoulli_like d Y)"
  let ?Y' = "map_t (\<lambda>x. x / (1 - p)) ?M"
  have run: "dropout_fn bern Y p True g = Inr (?Y', g')"
    using p dg by (simp add: dropout_fn_def)
  have Ms: "has_shape T B W ?M" by (intro mul_t_shape Y bernoulli_like_shape)
  have "?Y' ! t ! b ! j = Y ! t ! b ! j * d t b j / (1 - p)"
    if "t < T" "b < B" "j < W" for t b j
    using that Ms mul_t_nth [OF Y bernoulli_like_shape [OF Y, of d], of t b j]
      bernoulli_like_nth [OF Y, of t b j d]
    by (simp add: map_t_nth has_shape_iff)
  with dg run show ?thesis by blast
qed

lemma collect_Inr: "collect (map (\<lambda>x. Inr (f x)) xs) = Inr (map f xs)"
  by (induction xs) simp_all

lemma wf_units_upt:
  assumes "\<And>l. l < n \<Longrightarrow> wf_unit B bidir (if l = 0 then Din else width bidir Dh) Dh (f l)"
  shows "wf_units B bidir (if k = 0 then Din else width bidir Dh) Dh (map f [k..<n])"
proof (induction "n - k" arbitrary: k)
  case 0
  then show ?case by simp
next
  case (Suc m)
  then have k: "k < n" and m: "m = n - Suc k" by simp_all
  from k have "[k..<n] = k # [Suc k..<n]" by (rule upt_conv_Cons)
  with Suc.hyps(1) [OF m] assms [OF k] show ?case by simp
qed

lemma Linear_init_wf: "wf_linear (Linear_init a b draws)"
  by (simp add: wf_linear_def Linear_init_def list_all_iff)

lemma QRNNLayer_init_wf:
  assumes "win = 1 \<or> win = 2" and "0 < hs" and "0 \<le> zo" "zo \<le> 1"
  shows "\<exists>l. QRNNLayer_init n_in (Some hs) spx zo win og cuda draws = Inr l \<and>
           wf_layer B l \<and> input_size l = n_in \<and> hidden_size l = hs"
  using assms
  by (auto simp: QRNNLayer_init_def wf_layer_def Linear_init_wf Let_def)
    (simp_all add: Linear_init_def)

lemma BiDirQRNNLayer_init_wf:
  assumes win: "win = 1 \<or> win = 2" and hs: "0 < hs" and zo: "0 \<le> zo" "zo \<le> 1"
  shows "\<exists>b. BiDirQRNNLayer_init n_in (Some hs) spx zo win og cuda draws draws' = Inr b \<and>
           wf_bidir B b \<and> input_size b = n_in \<and> hidden_size b = hs"
proof -
  from QRNNLayer_init_wf [OF win hs zo, of n_in spx og cuda draws B] obtain fl
    where f: "QRNNLayer_init n_in (Some hs) spx zo win og cuda draws = Inr fl"
      "wf_layer B fl" "input_size fl = n_in" "hidden_size fl = hs"
    by blast
  from QRNNLayer_init_wf [OF win hs zo, of n_in spx og cuda draws' B] obtain bl
    where b: "QRNNLayer_init n_in (Some hs) spx zo win og cuda draws' = Inr bl"
      "wf_layer B bl" "input_size bl = n_in" "hidden_size bl = hs"
    by blast
  from win hs f b show ?thesis
    by (auto simp: BiDirQRNNLayer_init_def wf_bidir_def Let_def)
qed

lemma QRNN_init_wf:
  assumes win: "win = 1 \<or> win = 2" and hs: "0 < hs" and n: "0 < n"
    and p: "0 \<le> p" "p \<le> 1" and zo: "0 \<le> zo" "zo \<le> 1"
  shows "\<exists>q. QRNN_init n_in hs n True False p bidir None spx zo win og cuda pinit = Inr q \<and>
           wf_stack B q \<and> input_size q = n_in \<and> hidden_size q = hs \<and>
           num_layers q = n \<and> bidirectional q = bidir \<and> dropout q = p \<and>
           length (layers q) = n"
proof (cases bidir)
  case True
  define mk where "mk l = (SOME b. BiDirQRNNLayer_init (if l = 0 then n_in else hs * 2)
      (Some hs) spx zo win og cuda (pinit (2 * l)) (pinit (2 * l + 1)) = Inr b \<and>
      wf_bidir B b \<and> input_size b = (if l = 0 then n_in else hs * 2) \<and> hidden_size b = hs)"
    for l
  have mk: "BiDirQRNNLayer_init (if l = 0 then n_in else hs * 2)
      (Some hs) spx zo win og cuda (pinit (2 * l)) (pinit (2 * l + 1)) = Inr (mk l) \<and>
      wf_bidir B (mk l) \<and> input_size (mk l) = (if l = 0 then n_in else hs * 2) \<and>
      hidden_size (mk l) = hs" for l
    unfolding mk_def by (rule someI_ex) (rule BiDirQRNNLayer_init_wf [OF win hs zo])
  have "map (\<lambda>l. map_sum id Bi
          (BiDirQRNNLayer_init (if l = 0 then n_in else hs * 2) (Some hs)
             spx zo win og cuda (pinit (2 * l)) (pinit (2 * l + 1)))) [0..<n] =
        map (\<lambda>l. Inr (Bi (mk l))) [0..<n]"
    using mk by simp
  then have col: "collect (map (\<lambda>l. map_sum id Bi
          (BiDirQRNNLayer_init (if l = 0 then n_in else hs * 2) (Some hs)
             spx zo win og cuda (pinit (2 * l)) (pinit (2 * l + 1)))) [0..<n]) =
        Inr (map (\<lambda>l. Bi (mk l)) [0..<n])"
    by (simp only: collect_Inr)
  have "wf_units B True (if (0::nat) = 0 then n_in else width True hs) hs
          (map (\<lambda>l. Bi (mk l)) [0..<n])"
    by (rule wf_units_upt) (use mk in \<open>auto simp: width_def\<close>)
  then have wu: "wf_units B True n_in hs (map (\<lambda>l. Bi (mk l)) [0..<n])" by simp
  from n have ne: "map (\<lambda>l. Bi (mk l)) [0..<n] \<noteq> []" by simp
  show ?thesis
    using True col wu ne p by (simp add: QRNN_init_def wf_stack_def)
next
  case False
  define mk where "mk l = (SOME u. QRNNLayer_init (if l = 0 then n_in else hs)
      (Some hs) spx zo win og cuda (pinit l) = Inr u \<and>
      wf_layer B u \<and> input_size u = (if l = 0 then n_in else hs) \<and> hidden_size u = hs)"
    for l
  have mk: "QRNNLayer_init (if l = 0 then n_in else hs)
      (Some hs) spx zo win og cuda (pinit l) = Inr (mk l) \<and>
      wf_layer B (mk l) \<and> input_size (mk l) = (if l = 0 then n_in else hs) \<and>
      hidden_size (mk l) = hs" for l
    unfolding mk_def by (rule someI_ex) (rule QRNNLayer_init_wf [OF win hs zo])
  have "map (\<lambda>l. map_sum id Uni
          (QRNNLayer_init (if l = 0 then n_in else hs) (Some hs)
             spx zo win og cuda (pinit l))) [0..<n] =
        map (\<lambda>l. Inr (Uni (mk l))) [0..<n]"
    using mk by simp
  then have col: "collect (map (\<lambda>l. map_sum id Uni
          (QRNNLayer_init (if l = 0 then n_in else hs) (Some hs)
             spx zo win og cuda (pinit l))) [0..<n]) =
        Inr (map (\<lambda>l. Uni (mk l)) [0..<n])"
    by (simp only: collect_Inr)
  have "wf_units B False (if (0::nat) = 0 then n_in else width False hs) hs
          (map (\<lambda>l. Uni (mk l)) [0..<n])"
    by (rule wf_units_upt) (use mk in \<open>auto simp: width_def\<close>)
  then have wu: "wf_units B False n_in hs (map (\<lambda>l. Uni (mk l)) [0..<n])" by simp
  from n have ne: "map (\<lambda>l. Uni (mk l)) [0..<n] \<noteq> []" by simp
  show ?thesis
    using False col wu ne p by (simp add: QRNN_init_def wf_stack_def)
qed

text \<open>
  Claim C9.  On an input of shape (T, B, D_in) with T, B >= 1, a well-formed stack of L
  units with hidden size D_h returns.  Its loop is the stack in the words of the spec
  (\<open>layers_after\<close>): layer 0 is fed the external input and every other layer the output
  of the previous one, layer i gets \<open>hidden[i]\<close> when a stacked initial state was supplied
  and none otherwise (what the code hands to layer i is exactly that), and dropout is
  applied after every layer but the last.  The output
  has shape (T, B, D_h * mult) and the final hidden states, one per layer, are stacked to
  shape (L, B, D_h * mult), where mult is 2 for a bidirectional stack and 1 otherwise.
  Dropout is the identity in inference mode; in training mode it multiplies every
  element by its Bernoulli draw (zeroing it or not) and divides by 1 - p.
\<close>

theorem stack_forward:
  assumes wf: "wf_stack B q" and X: "has_shape T B (input_size q) X"
    and T: "0 < T" and B: "0 < B"
    and h: "stack_hidden_ok (length (layers q)) B (hidden_size q) hidden"
  shows "QRNN_loop bern (dropout q) (training q) (length (layers q)) hidden 0 (layers q)
             (Tensor3 X) [] g =
           layers_after bern q (Tensor3 X) hidden g (length (layers q)) \<and>
         (\<forall>k<length (layers q).
            hidden_at hidden k =
              Inr (case hidden of None \<Rightarrow> None | Some h \<Rightarrow> Some (h ! k))) \<and>
         (\<exists>out nh ls g'.
            layers_after bern q (Tensor3 X) hidden g (length (layers q)) =
              Inr (Tensor3 out, nh, ls, g') \<and>
            QRNN_forward bern q (Tensor3 X) hidden g =
              Inr (Tensor3 out, concat nh, q\<lparr>layers := ls\<rparr>, g') \<and>
            length nh = num_layers q \<and>
            has_shape T B (width (bidirectional q) (hidden_size q)) out \<and>
            has_shape (num_layers q) B (width (bidirectional q) (hidden_size q)) (concat nh)) \<and>
         (\<forall>Y g0. dropout_fn bern Y (dropout q) False g0 = Inr (Y, g0)) \<and>
         (\<forall>Y g0 T' B' W'.
            has_shape T' B' W' Y \<and> dropout q \<noteq> 0 \<and> dropout q \<noteq> 1 \<longrightarrow>
            (\<exists>d g1 Y'. bern g0 (1 - dropout q) = (d, g1) \<and>
               dropout_fn bern Y (dropout q) True g0 = Inr (Y', g1) \<and>
               (\<forall>t<T'. \<forall>b<B'. \<forall>j<W'.
                  Y' ! t ! b ! j = Y ! t ! b ! j * d t b j / (1 - dropout q))))"
proof -
  let ?L = "length (layers q)"
  let ?W = "width (bidirectional q) (hidden_size q)"
  from wf have ne: "layers q \<noteq> []" and nl: "num_layers q = ?L"
    and us: "wf_units B (bidirectional q) (input_size q) (hidden_size q) (layers q)"
    and p: "0 \<le> dropout q" "dropout q \<le> 1"
    by (simp_all add: wf_stack_def)
  note ref = QRNN_loop_refines [of bern q hidden "Tensor3 X" g]
  have nil: "list_all (has_shape 1 B ?W) []" by simp
  have le: "0 + ?L \<le> ?L" by simp
  from QRNN_loop_shape [OF us X T h le p nil, of bern "training q" ?L g] ne
  obtain out nh ls g'
    where loop: "QRNN_loop bern (dropout q) (training q) ?L hidden 0 (layers q) (Tensor3 X) [] g =
                   Inr (Tensor3 out, nh, ls, g')"
      and len: "length nh = ?L" and all: "list_all (has_shape 1 B ?W) nh"
      and os: "has_shape T B ?W out"
    by auto
  from ne have L: "0 < ?L" by simp
  note sh = stack_hidden_shape [OF all len L B]
  have run: "QRNN_forward bern q (Tensor3 X) hidden g =
      Inr (Tensor3 out, concat nh, q\<lparr>layers := ls\<rparr>, g')"
    by (simp add: QRNN_forward_def loop nl sh)
  have main: "\<exists>out nh ls g'.
            layers_after bern q (Tensor3 X) hidden g ?L = Inr (Tensor3 out, nh, ls, g') \<and>
            QRNN_forward bern q (Tensor3 X) hidden g =
              Inr (Tensor3 out, concat nh, q\<lparr>layers := ls\<rparr>, g') \<and>
            length nh = num_layers q \<and>
            has_shape T B ?W out \<and> has_shape (num_layers q) B ?W (concat nh)"
    using loop run len os sh nl ref by auto
  have inf: "\<forall>Y g0. dropout_fn bern Y (dropout q) False g0 = Inr (Y, g0)"
    using p by (simp add: dropout_inference)
  have tr: "\<forall>Y g0 T' B' W'.
            has_shape T' B' W' Y \<and> dropout q \<noteq> 0 \<and> dropout q \<noteq> 1 \<longrightarrow>
            (\<exists>d g1 Y'. bern g0 (1 - dropout q) = (d, g1) \<and>
               dropout_fn bern Y (dropout q) True g0 = Inr (Y', g1) \<and>
               (\<forall>t<T'. \<forall>b<B'. \<forall>j<W'.
                  Y' ! t ! b ! j = Y ! t ! b ! j * d t b j / (1 - dropout q)))"
  proof (intro allI impI)
    fix Y g0 T' B' W'
    assume a: "has_shape T' B' W' Y \<and> dropout q \<noteq> 0 \<and> dropout q \<noteq> 1"
    then have Y: "has_shape T' B' W' Y" and nz: "dropout q \<noteq> 0" and n1: "dropout q \<noteq> 1"
      by simp_all
    show "\<exists>d g1 Y'. bern g0 (1 - dropout q) = (d, g1) \<and>
               dropout_fn bern Y (dropout q) True g0 = Inr (Y', g1) \<and>
               (\<forall>t<T'. \<forall>b<B'. \<forall>j<W'.
                  Y' ! t ! b ! j = Y ! t ! b ! j * d t b j / (1 - dropout q))"
      by (rule dropout_training [OF Y p nz n1])
  qed
  have hid: "\<forall>k<?L. hidden_at hidden k =
      Inr (case hidden of None \<Rightarrow> None | Some h \<Rightarrow> Some (h ! k))"
    using h by (cases hidden) (auto simp: hidden_at_def stack_hidden_ok_def has_shape_def)
  from ref hid main inf tr show ?thesis by (intro conjI)
qed


lemma zero_run:
  "\<exists>q q'.
     QRNN_init 1 1 2 True False 0 False None False 0 1 True True (\<lambda>k. zero_draws) = Inr q \<and>
     QRNN_forward alt_sampler q (Tensor3 [[[1]]]) (Some [[[4]], [[5]]]) (0::nat) =
       Inr (Tensor3 [[[5 / 4]]], [[[2]], [[5 / 2]]], q', 0) \<and>
     QRNN_forward alt_sampler q (Tensor3 [[[1]]]) None (0::nat) =
       Inr (Tensor3 [[[0]]], [[[0]], [[0]]], q', 0)"
  by (simp add: run_defs zero_draws_def sigmoid_def chunks_numeral)

theorem stack_forward_witness:
  "(\<exists>q out hid q' g'.
      QRNN_init 1 1 2 True False (2 / 5) False None False 0 1 True True (\<lambda>k. ones_draws) =
        Inr q \<and>
      wf_stack 1 q \<and> has_shape 2 1 (input_size q) [[[1]], [[2]]] \<and>
      stack_hidden_ok (length (layers q)) 1 (hidden_size q) (Some [[[4]], [[5]]]) \<and>
      QRNN_forward alt_sampler q (Tensor3 [[[1]], [[2]]]) (Some [[[4]], [[5]]]) (0::nat) =
        Inr (Tensor3 out, hid, q', g') \<and>
      has_shape 2 1 1 out \<and> has_shape 2 1 1 hid) \<and>
   (\<exists>q out hid q' g'.
      QRNN_init 1 1 2 True False 0 True None False 0 1 True True (\<lambda>k. ones_draws) = Inr q \<and>
      wf_stack 1 q \<and> has_shape 2 1 (input_size q) [[[1]], [[2]]] \<and>
      stack_hidden_ok (length (layers q)) 1 (hidden_size q) None \<and>
      QRNN_forward alt_sampler q (Tensor3 [[[1]], [[2]]]) None (0::nat) =
        Inr (Tensor3 out, hid, q', g') \<and>
      has_shape 2 1 2 out \<and> has_shape 2 1 2 hid) \<and>
   (\<exists>q q'.
      QRNN_init 1 1 2 True False 0 False None False 0 1 True True (\<lambda>k. zero_draws) = Inr q \<and>
      wf_stack 1 q \<and> has_shape 1 1 (input_size q) [[[1]]] \<and>
      stack_hidden_ok (length (layers q)) 1 (hidden_size q) (Some [[[4]], [[5]]]) \<and>
      hidden_at (Some [[[4]], [[5]]]) 0 = Inr (Some [[4]]) \<and>
      hidden_at (Some [[[4]], [[5]]]) 1 = Inr (Some [[5]]) \<and>
      QRNN_forward alt_sampler q (Tensor3 [[[1]]]) (Some [[[4]], [[5]]]) (0::nat) =
        Inr (Tensor3 [[[5 / 4]]], [[[2]], [[5 / 2]]], q', 0) \<and>
      QRNN_forward alt_sampler q (Tensor3 [[[1]]]) None (0::nat) =
        Inr (Tensor3 [[[0]]], [[[0]], [[0]]], q', 0))"
proof -
  have win: "(1::nat) = 1 \<or> (1::nat) = 2" and hs: "(0::nat) < 1" and n: "(0::nat) < 2"
    and p: "(0::real) \<le> 2 / 5" "(2 / 5 :: real) \<le> 1" and p0: "(0::real) \<le> 0" "(0::real) \<le> 1"
    by simp_all
  have T: "(0::nat) < 2" and B: "(0::nat) < 1" by simp_all
  have X: "has_shape 2 1 1 [[[1]], [[2]]]" by (simp add: has_shape_def has_rows_def)
  have a: "\<exists>q out hid q' g'.
      QRNN_init 1 1 2 True False (2 / 5) False None False 0 1 True True (\<lambda>k. ones_draws) =
        Inr q \<and>
      wf_stack 1 q \<and> has_shape 2 1 (input_size q) [[[1]], [[2]]] \<and>
      stack_hidden_ok (length (layers q)) 1 (hidden_size q) (Some [[[4]], [[5]]]) \<and>
      QRNN_forward alt_sampler q (Tensor3 [[[1]], [[2]]]) (Some [[[4]], [[5]]]) (0::nat) =
        Inr (Tensor3 out, hid, q', g') \<and>
      has_shape 2 1 1 out \<and> has_shape 2 1 1 hid"
  proof -
    from QRNN_init_wf [OF win hs n p p0, of 1 False False True True "\<lambda>k. ones_draws" 1]
    obtain q where q: "QRNN_init 1 1 2 True False (2 / 5) False None False 0 1 True True
          (\<lambda>k. ones_draws) = Inr q"
      and wf: "wf_stack 1 q" and sz: "input_size q = 1" "hidden_size q = 1" "num_layers q = 2"
        "bidirectional q = False" "length (layers q) = 2"
      by blast
    have Xq: "has_shape 2 1 (input_size q) [[[1]], [[2]]]" using X sz by simp
    have h: "stack_hidden_ok (length (layers q)) 1 (hidden_size q) (Some [[[4]], [[5]]])"
      using sz by (simp add: stack_hidden_ok_def has_shape_def has_rows_def)
    from stack_forward [OF wf Xq T B h, of alt_sampler 0, THEN conjunct2, THEN conjunct2,
        THEN conjunct1] sz
    obtain out nh ls g' where
      "QRNN_forward alt_sampler q (Tensor3 [[[1]], [[2]]]) (Some [[[4]], [[5]]]) 0 =
         Inr (Tensor3 out, concat nh, q\<lparr>layers := ls\<rparr>, g')"
      "has_shape 2 1 1 out" "has_shape 2 1 1 (concat nh)"
      by auto
    with q wf Xq h show ?thesis by blast
  qed
  have b: "\<exists>q out hid q' g'.
      QRNN_init 1 1 2 True False 0 True None False 0 1 True True (\<lambda>k. ones_draws) = Inr q \<and>
      wf_stack 1 q \<and> has_shape 2 1 (input_size q) [[[1]], [[2]]] \<and>
      stack_hidden_ok (length (layers q)) 1 (hidden_size q) None \<and>
      QRNN_forward alt_sampler q (Tensor3 [[[1]], [[2]]]) None (0::nat) =
        Inr (Tensor3 out, hid, q', g') \<and>
      has_shape 2 1 2 out \<and> has_shape 2 1 2 hid"
  proof -
    from QRNN_init_wf [OF win hs n p0 p0, of 1 True False True True "\<lambda>k. ones_draws" 1]
    obtain q where q: "QRNN_init 1 1 2 True False 0 True None False 0 1 True True
          (\<lambda>k. ones_draws) = Inr q"
      and wf: "wf_stack 1 q" and sz: "input_size q = 1" "hidden_size q = 1" "num_layers q = 2"
        "bidirectional q = True" "length (layers q) = 2"
      by blast
    have Xq: "has_shape 2 1 (input_size q) [[[1]], [[2]]]" using X sz by simp
    have h: "stack_hidden_ok (length (layers q)) 1 (hidden_size q) None"
      by (simp add: stack_hidden_ok_def)
    from stack_forward [OF wf Xq T B h, of alt_sampler 0, THEN conjunct2, THEN conjunct2,
        THEN conjunct1] sz
    obtain out nh ls g' where
      "QRNN_forward alt_sampler q (Tensor3 [[[1]], [[2]]]) None 0 =
         Inr (Tensor3 out, concat nh, q\<lparr>layers := ls\<rparr>, g')"
      "has_shape 2 1 2 out" "has_shape 2 1 2 (concat nh)"
      by auto
    with q wf Xq h show ?thesis by blast
  qed
  have c: "\<exists>q q'.
      QRNN_init 1 1 2 True False 0 False None False 0 1 True True (\<lambda>k. zero_draws) = Inr q \<and>
      wf_stack 1 q \<and> has_shape 1 1 (input_size q) [[[1]]] \<and>
      stack_hidden_ok (length (layers q)) 1 (hidden_size q) (Some [[[4]], [[5]]]) \<and>
      hidden_at (Some [[[4]], [[5]]]) 0 = Inr (Some [[4]]) \<and>
      hidden_at (Some [[[4]], [[5]]]) 1 = Inr (Some [[5]]) \<and>
      QRNN_forward alt_sampler q (Tensor3 [[[1]]]) (Some [[[4]], [[5]]]) (0::nat) =
        Inr (Tensor3 [[[5 / 4]]], [[[2]], [[5 / 2]]], q', 0) \<and>
      QRNN_forward alt_sampler q (Tensor3 [[[1]]]) None (0::nat) =
        Inr (Tensor3 [[[0]]], [[[0]], [[0]]], q', 0)"
  proof -
    from zero_run obtain q q'
      where q: "QRNN_init 1 1 2 True False 0 False None False 0 1 True True
          (\<lambda>k. zero_draws) = Inr q"
        and r1: "QRNN_forward alt_sampler q (Tensor3 [[[1]]]) (Some [[[4]], [[5]]]) (0::nat) =
          Inr (Tensor3 [[[5 / 4]]], [[[2]], [[5 / 2]]], q', 0)"
        and r2: "QRNN_forward alt_sampler q (Tensor3 [[[1]]]) None (0::nat) =
          Inr (Tensor3 [[[0]]], [[[0]], [[0]]], q', 0)"
      by blast
    from QRNN_init_wf [OF win hs n p0 p0, of 1 False False True True "\<lambda>k. zero_draws" 1] q
    have wf: "wf_stack 1 q" and sz: "input_size q = 1" "hidden_size q = 1"
        "length (layers q) = 2"
      by auto
    have Xq: "has_shape 1 1 (input_size q) [[[1]]]"
      using sz by (simp add: has_shape_def has_rows_def)
    have h: "stack_hidden_ok (length (layers q)) 1 (hidden_size q) (Some [[[4]], [[5]]])"
      using sz by (simp add: stack_hidden_ok_def has_shape_def has_rows_def)
    have T1: "(0::nat) < 1" by simp
    note pin = stack_forward [OF wf Xq T1 B h, of alt_sampler 0, THEN conjunct2, THEN conjunct1,
        rule_format]
    have "hidden_at (Some [[[4]], [[5]]]) 0 = Inr (Some [[4]])"
      and "hidden_at (Some [[[4]], [[5]]]) 1 = Inr (Some [[5]])"
      using pin [of 0] pin [of 1] sz by simp_all
    with q wf Xq h r1 r2 show ?thesis by blast
  qed
  from a b c show ?thesis by (intro conjI)
qed

end
